theory Spec2Isabelle
  imports Complex_Main
begin

section \<open>Numeric conventions\<close>

text \<open>
  Python floats, numpy arrays and torch float tensors are modelled by HOL reals: the
  development verifies the arithmetic the scripts write down, not its rounding.
  A tensor of shape \<open>(N, 3)\<close> is a list of triples, one of shape \<open>(N, 4)\<close> a list
  of quadruples (quaternions are scalar-first, \<open>(w, x, y, z)\<close>), one of shape \<open>(N)\<close>
  or \<open>(N, 1)\<close> a list of scalars.
\<close>

type_synonym vec3 = "real \<times> real \<times> real"
type_synonym quat = "real \<times> real \<times> real \<times> real"

datatype error = ZeroDivisionError | IndexError

definition vec_mul :: "vec3 \<Rightarrow> real \<Rightarrow> vec3" where
  "vec_mul v c = (case v of (x, y, z) \<Rightarrow> (x * c, y * c, z * c))"

definition vec_div :: "vec3 \<Rightarrow> real \<Rightarrow> vec3" where
  "vec_div v c = (case v of (x, y, z) \<Rightarrow> (x / c, y / c, z / c))"

text \<open>Python's \<open>a % b\<close> on integers: the result takes the sign of \<open>b\<close>, as HOL's
  \<open>mod\<close> on \<open>int\<close> does, and \<open>b = 0\<close> raises.\<close>

definition py_mod :: "int \<Rightarrow> int \<Rightarrow> error + int" where
  "py_mod a b = (if b = 0 then Inl ZeroDivisionError else Inr (a mod b))"

section \<open>Trajectory sampler: \<open>process_group\<close> of \<open>01_path_tracking_sdg.py\<close>\<close>

text \<open>
  The class of the trajectory object lives in \<open>path_tracking_sdg_utils\<close>; the sampler
  only calls its accessors, which are the fields of this record: \<open>getTimestamp\<close> is
  the array of all timestamps, the other four look a sample up by its timestamp.
\<close>

record trajectory =
  getTimestamp :: "real list"
  getPosbyTimestamp :: "real \<Rightarrow> vec3"
  getQuaternionbyTimestamp :: "real \<Rightarrow> quat"
  getVelbyTimestamp :: "real \<Rightarrow> vec3"
  getOmgbyTimestamp :: "real \<Rightarrow> vec3"

text \<open>Modelled from the spec: \<open>len(trajectory)\<close>, the \<open>__len__\<close> of the missing trajectory
  class. A trajectory is an ordered sequence of samples, each with one timestamp, so its
  length is the number of timestamps.\<close>

definition len :: "trajectory \<Rightarrow> nat" where
  "len tr = length (getTimestamp tr)"

text \<open>What one visited sample hands to the engine: the pose of \<open>rep.modify.pose\<close>, the
  velocities of \<open>rep.physics.rigid_body\<close>, the arguments of \<open>rep.orchestrator.step\<close>,
  and the timestamp that is printed.\<close>

record step_call =
  sample_timestamp :: real
  pose_position :: vec3
  pose_rotation :: vec3
  body_velocity :: vec3
  body_angular_velocity :: vec3
  delta_time :: real
  step_rt_subframes :: int

text \<open>The body of the loop for a sample that is not skipped. \<open>quat_to_euler_angles\<close>
  belongs to the simulator and is a parameter.\<close>

definition sample_step :: "(quat \<Rightarrow> vec3) \<Rightarrow> int \<Rightarrow> trajectory \<Rightarrow> nat \<Rightarrow> step_call" where
  "sample_step quat_to_euler_angles rt_subframes tr sample_counter =
     (let timestamp = getTimestamp tr ! sample_counter;
          position = getPosbyTimestamp tr timestamp;
          orientation = getQuaternionbyTimestamp tr timestamp;
          velocity = getVelbyTimestamp tr timestamp;
          omega = vec_div (vec_mul (getOmgbyTimestamp tr timestamp) 180) pi;
          next_timestamp =
            (if sample_counter + 1 < len tr then getTimestamp tr ! (sample_counter + 1)
             else timestamp);
          dt = next_timestamp - timestamp
      in \<lparr> sample_timestamp = timestamp,
           pose_position = position,
           pose_rotation = vec_div (vec_mul (quat_to_euler_angles orientation) 180) pi,
           body_velocity = velocity,
           body_angular_velocity = omega,
           delta_time = dt,
           step_rt_subframes = rt_subframes \<rparr>)"

text \<open>The loop over \<open>range(len(trajectory))\<close>. The only statement that can raise is the
  test \<open>sample_counter % interval != 0\<close>, and it raises at the first iteration or never,
  so no engine call precedes an error.\<close>

fun sample_loop ::
  "(quat \<Rightarrow> vec3) \<Rightarrow> int \<Rightarrow> trajectory \<Rightarrow> int \<Rightarrow> nat list \<Rightarrow> error + step_call list" where
  "sample_loop q2e rt tr interval [] = Inr []"
| "sample_loop q2e rt tr interval (sample_counter # rest) =
     (case py_mod (int sample_counter) interval of
        Inl e \<Rightarrow> Inl e
      | Inr r \<Rightarrow>
          if r \<noteq> 0 then sample_loop q2e rt tr interval rest
          else (case sample_loop q2e rt tr interval rest of
                  Inl e \<Rightarrow> Inl e
                | Inr calls \<Rightarrow> Inr (sample_step q2e rt tr sample_counter # calls)))"

text \<open>\<open>process_group\<close> for the trajectory of one group, with \<open>interval\<close> the value of
  \<open>config.get("sample_interval", 100)\<close>. The writer is set up before the loop and
  detached after it; neither touches the samples.\<close>

definition process_group ::
  "(quat \<Rightarrow> vec3) \<Rightarrow> int \<Rightarrow> trajectory \<Rightarrow> int \<Rightarrow> error + step_call list" where
  "process_group q2e rt tr interval = sample_loop q2e rt tr interval [0..<len tr]"

text \<open>The indices the loop does not skip.\<close>

definition visited :: "int \<Rightarrow> nat \<Rightarrow> nat list" where
  "visited interval n = filter (\<lambda>c. int c mod interval = 0) [0..<n]"

section \<open>Quadrotor environment: \<open>QuadcopterWithYawEnv\<close> of \<open>quad_env.py\<close>\<close>

subsection \<open>Configuration and state\<close>

text \<open>The reward scales of \<open>QuadcopterEnvCfg\<close>.\<close>

definition lin_vel_reward_scale :: real where
  "lin_vel_reward_scale = - 0.01"

definition ang_vel_reward_scale :: real where
  "ang_vel_reward_scale = - 0.002"

definition distance_to_goal_reward_scale :: real where
  "distance_to_goal_reward_scale = 30.0"

definition radial_to_goal_yaw_reward_scale :: real where
  "radial_to_goal_yaw_reward_scale = 5.0"

text \<open>\<open>self._robot.data\<close>, as far as the environment reads it.\<close>

record robot_data =
  root_pos_w :: "vec3 list"
  root_quat_w :: "quat list"
  root_lin_vel_b :: "vec3 list"
  root_ang_vel_b :: "vec3 list"

text \<open>\<open>self._episode_sums\<close>: a dictionary whose four keys are fixed by \<open>__init__\<close>,
  hence a record with one field per key.\<close>

record episode_sums =
  sum_lin_vel :: "real list"
  sum_ang_vel :: "real list"
  sum_distance_to_goal_pose :: "real list"
  sum_radial_to_goal_yaw :: "real list"

text \<open>\<open>self.extras["log"]\<close> as \<open>_reset_idx\<close> fills it.\<close>

record episode_log =
  Episode_Reward_lin_vel :: real
  Episode_Reward_ang_vel :: real
  Episode_Reward_distance_to_goal_pose :: real
  Episode_Reward_radial_to_goal_yaw :: real
  Episode_Termination_died :: nat
  Episode_Termination_time_out :: nat
  Metrics_final_distance_to_goal :: real
  Metrics_final_yaw_diff :: real

text \<open>The environment. \<open>num_envs\<close>, \<open>step_dt\<close>, \<open>max_episode_length\<close>,
  \<open>max_episode_length_s\<close>, \<open>episode_length_buf\<close>, \<open>reset_terminated\<close> and
  \<open>reset_time_outs\<close> are attributes of the base class \<open>DirectRLEnv\<close> and
  \<open>env_origins\<close> of the terrain; both belong to the simulator and are given.\<close>

record quad_env =
  num_envs :: nat
  step_dt :: real
  max_episode_length :: int
  max_episode_length_s :: real
  robot :: robot_data
  env_origins :: "vec3 list"
  episode_length_buf :: "int list"
  reset_terminated :: "bool list"
  reset_time_outs :: "bool list"
  actions :: "quat list"
  desired_pos_w :: "vec3 list"
  desired_yaw_w :: "real list"
  desired_yaw_quat :: "quat list"
  episode_sums :: episode_sums
  extras_log :: episode_log

text \<open>Every per-environment tensor has \<open>num_envs\<close> rows.\<close>

definition wf_env :: "quad_env \<Rightarrow> bool" where
  "wf_env env \<longleftrightarrow>
     length (root_pos_w (robot env)) = num_envs env \<and>
     length (root_quat_w (robot env)) = num_envs env \<and>
     length (root_lin_vel_b (robot env)) = num_envs env \<and>
     length (root_ang_vel_b (robot env)) = num_envs env \<and>
     length (env_origins env) = num_envs env \<and>
     length (episode_length_buf env) = num_envs env \<and>
     length (reset_terminated env) = num_envs env \<and>
     length (reset_time_outs env) = num_envs env \<and>
     length (actions env) = num_envs env \<and>
     length (desired_pos_w env) = num_envs env \<and>
     length (desired_yaw_w env) = num_envs env \<and>
     length (desired_yaw_quat env) = num_envs env \<and>
     length (sum_lin_vel (episode_sums env)) = num_envs env \<and>
     length (sum_ang_vel (episode_sums env)) = num_envs env \<and>
     length (sum_distance_to_goal_pose (episode_sums env)) = num_envs env \<and>
     length (sum_radial_to_goal_yaw (episode_sums env)) = num_envs env"

subsection \<open>Tensor operations\<close>

text \<open>\<open>torch.sum(torch.square(v), dim=1)\<close> and \<open>torch.linalg.norm(v, dim=1)\<close> on one row.\<close>

definition sum_square :: "vec3 \<Rightarrow> real" where
  "sum_square v = (case v of (x, y, z) \<Rightarrow> x\<^sup>2 + y\<^sup>2 + z\<^sup>2)"

definition norm3 :: "vec3 \<Rightarrow> real" where
  "norm3 v = sqrt (sum_square v)"

definition vec_sub :: "vec3 \<Rightarrow> vec3 \<Rightarrow> vec3" where
  "vec_sub a b = (case a of (ax, ay, az) \<Rightarrow> case b of (bx, by, bz) \<Rightarrow> (ax - bx, ay - by, az - bz))"

text \<open>\<open>torch.clamp(x, lo, hi)\<close>.\<close>

definition clamp :: "real \<Rightarrow> real \<Rightarrow> real \<Rightarrow> real" where
  "clamp x lo hi = min (max x lo) hi"

text \<open>\<open>torch.mean\<close>. On an empty tensor torch returns NaN, the quotient below is 0: the
  aggregates that are logged mean something for a non-empty selection only.\<close>

definition mean :: "real list \<Rightarrow> real" where
  "mean xs = sum_list xs / real (length xs)"

text \<open>Reading with an index tensor, \<open>x[ids]\<close>.\<close>

definition gather :: "'a list \<Rightarrow> nat list \<Rightarrow> 'a list" where
  "gather xs ids = map (\<lambda>i. xs ! i) ids"

text \<open>Writing with an index tensor, \<open>x[ids, cols] = vals\<close>: row \<open>ids[k]\<close> receives
  \<open>vals[k]\<close> in the written columns, which is what \<open>w\<close> does to a row; rows are written
  in order, so the last write to a repeated index stays.\<close>

definition index_put :: "('a \<Rightarrow> 'b \<Rightarrow> 'a) \<Rightarrow> 'a list \<Rightarrow> nat list \<Rightarrow> 'b list \<Rightarrow> 'a list" where
  "index_put w xs ids vals = fold (\<lambda>(i, v) acc. acc[i := w (acc ! i) v]) (zip ids vals) xs"

text \<open>Writing one scalar, \<open>x[ids] = c\<close>.\<close>

definition index_fill :: "'a list \<Rightarrow> nat list \<Rightarrow> 'a \<Rightarrow> 'a list" where
  "index_fill xs ids c = index_put (\<lambda>_ v. v) xs ids (replicate (length ids) c)"

text \<open>The column writers: \<open>[:, :2]\<close> and \<open>[:, 2]\<close> of a position, \<open>[:, 0]\<close> and
  \<open>[:, 3]\<close> of a quaternion.\<close>

definition set_xy :: "vec3 \<Rightarrow> real \<times> real \<Rightarrow> vec3" where
  "set_xy row v = (case row of (x, y, z) \<Rightarrow> (fst v, snd v, z))"

definition set_z :: "vec3 \<Rightarrow> real \<Rightarrow> vec3" where
  "set_z row v = (case row of (x, y, z) \<Rightarrow> (x, y, v))"

definition get_xy :: "vec3 \<Rightarrow> real \<times> real" where
  "get_xy row = (case row of (x, y, z) \<Rightarrow> (x, y))"

definition add_xy :: "real \<times> real \<Rightarrow> real \<times> real \<Rightarrow> real \<times> real" where
  "add_xy a b = (fst a + fst b, snd a + snd b)"

definition set_q0 :: "quat \<Rightarrow> real \<Rightarrow> quat" where
  "set_q0 row v = (case row of (w, x, y, z) \<Rightarrow> (v, x, y, z))"

definition set_q3 :: "quat \<Rightarrow> real \<Rightarrow> quat" where
  "set_q3 row v = (case row of (w, x, y, z) \<Rightarrow> (w, x, y, v))"

subsection \<open>The yaw error\<close>

text \<open>The block that \<open>_get_rewards\<close> and \<open>_reset_idx\<close> both contain, on one row:
  conjugate the current quaternion, multiply the desired one by it, normalise, and turn
  the scalar part into an angle. The source divides by the norm without a test: for a
  product of norm zero torch yields NaN where HOL's division yields 0, so statements
  about \<open>angular_diff\<close> are made for quaternions of norm one, as the engine and
  \<open>_reset_idx\<close> produce them.\<close>

definition quat_conj :: "quat \<Rightarrow> quat" where
  "quat_conj q = (case q of (w, x, y, z) \<Rightarrow> (w, - x, - y, - z))"

definition quat_mul :: "quat \<Rightarrow> quat \<Rightarrow> quat" where
  "quat_mul d c =
     (case d of (d0, d1, d2, d3) \<Rightarrow> case c of (c0, c1, c2, c3) \<Rightarrow>
        (d0 * c0 - d1 * c1 - d2 * c2 - d3 * c3,
         d0 * c1 + d1 * c0 + d2 * c3 - d3 * c2,
         d0 * c2 - d1 * c3 + d2 * c0 + d3 * c1,
         d0 * c3 + d1 * c2 - d2 * c1 + d3 * c0))"

definition quat_norm :: "quat \<Rightarrow> real" where
  "quat_norm q = (case q of (w, x, y, z) \<Rightarrow> sqrt (w\<^sup>2 + x\<^sup>2 + y\<^sup>2 + z\<^sup>2))"

definition quat_div :: "quat \<Rightarrow> real \<Rightarrow> quat" where
  "quat_div q n = (case q of (w, x, y, z) \<Rightarrow> (w / n, x / n, y / n, z / n))"

definition quat_neg :: "quat \<Rightarrow> quat" where
  "quat_neg q = (case q of (w, x, y, z) \<Rightarrow> (- w, - x, - y, - z))"

definition angular_diff :: "quat \<Rightarrow> quat \<Rightarrow> real" where
  "angular_diff desired_quat current_quat =
     (let current_quat_conj = quat_conj current_quat;
          quat_diff = quat_mul desired_quat current_quat_conj;
          quat_diff = quat_div quat_diff (quat_norm quat_diff);
          angular_diff = 2 * arccos (clamp (fst quat_diff) (- 1.0) 1.0)
      in min angular_diff (2 * pi - angular_diff))"

subsection \<open>\<open>_get_rewards\<close> and \<open>_get_dones\<close>\<close>

text \<open>The four entries of the dictionary \<open>rewards\<close>, in its order.\<close>

record rewards =
  rew_lin_vel :: "real list"
  rew_ang_vel :: "real list"
  rew_distance_to_goal_pose :: "real list"
  rew_radial_to_goal_yaw :: "real list"

definition reward_terms :: "quad_env \<Rightarrow> rewards" where
  "reward_terms env =
     (let lin_vel = map sum_square (root_lin_vel_b (robot env));
          ang_vel = map sum_square (root_ang_vel_b (robot env));
          distance_to_goal_pose =
            map2 (\<lambda>d p. norm3 (vec_sub d p)) (desired_pos_w env) (root_pos_w (robot env));
          distance_to_goal_pose_mapped = map (\<lambda>d. 1 - tanh (d / 0.8)) distance_to_goal_pose;
          radial_to_goal_yaw = map2 angular_diff (desired_yaw_quat env) (root_quat_w (robot env))
      in \<lparr> rew_lin_vel = map (\<lambda>v. v * lin_vel_reward_scale * step_dt env) lin_vel,
           rew_ang_vel = map (\<lambda>v. v * ang_vel_reward_scale * step_dt env) ang_vel,
           rew_distance_to_goal_pose =
             map (\<lambda>v. v * distance_to_goal_reward_scale * step_dt env) distance_to_goal_pose_mapped,
           rew_radial_to_goal_yaw =
             map (\<lambda>v. (1 - v / pi) * radial_to_goal_yaw_reward_scale * step_dt env)
               radial_to_goal_yaw \<rparr>)"

text \<open>\<open>_get_rewards\<close> returns the reward tensor and leaves the four terms added to the
  running sums.\<close>

definition get_rewards :: "quad_env \<Rightarrow> real list \<times> quad_env" where
  "get_rewards env =
     (let rewards = reward_terms env;
          reward =
            map2 (+) (map2 (+) (map2 (+) (rew_lin_vel rewards) (rew_ang_vel rewards))
              (rew_distance_to_goal_pose rewards)) (rew_radial_to_goal_yaw rewards);
          old_sums = episode_sums env;
          new_sums =
            \<lparr> sum_lin_vel = map2 (+) (sum_lin_vel old_sums) (rew_lin_vel rewards),
              sum_ang_vel = map2 (+) (sum_ang_vel old_sums) (rew_ang_vel rewards),
              sum_distance_to_goal_pose =
                map2 (+) (sum_distance_to_goal_pose old_sums) (rew_distance_to_goal_pose rewards),
              sum_radial_to_goal_yaw =
                map2 (+) (sum_radial_to_goal_yaw old_sums) (rew_radial_to_goal_yaw rewards) \<rparr>
      in (reward, env\<lparr>episode_sums := new_sums\<rparr>))"

text \<open>\<open>_get_dones\<close> returns \<open>(died, time_out)\<close>.\<close>

definition get_dones :: "quad_env \<Rightarrow> bool list \<times> bool list" where
  "get_dones env =
     (let time_out = map (\<lambda>c. c \<ge> max_episode_length env - 1) (episode_length_buf env);
          died = map (\<lambda>p. case p of (x, y, z) \<Rightarrow> z < 0.1 \<or> z > 2.0) (root_pos_w (robot env))
      in (died, time_out))"

subsection \<open>\<open>_reset_idx\<close>\<close>

text \<open>The random numbers one call consumes. \<open>Tensor.uniform_(lo, hi)\<close> scales a draw
  \<open>u\<close> of the generator from the unit interval, \<open>0 \<le> u < 1\<close>, to \<open>lo + (hi - lo) * u\<close>;
  the record holds the draws for row \<open>k\<close> of each sampled tensor, and the entries of
  the tensor that \<open>torch.randint_like\<close> returns.\<close>

record draws =
  draw_xy :: "nat \<Rightarrow> real \<times> real"
  draw_z :: "nat \<Rightarrow> real"
  draw_yaw :: "nat \<Rightarrow> real"
  draw_length :: "nat \<Rightarrow> int"

definition uniform :: "real \<Rightarrow> real \<Rightarrow> real \<Rightarrow> real" where
  "uniform lo hi u = lo + (hi - lo) * u"

definition unit_draws :: "draws \<Rightarrow> bool" where
  "unit_draws rnd \<longleftrightarrow>
     (\<forall>k. 0 \<le> fst (draw_xy rnd k) \<and> fst (draw_xy rnd k) < 1 \<and>
          0 \<le> snd (draw_xy rnd k) \<and> snd (draw_xy rnd k) < 1 \<and>
          0 \<le> draw_z rnd k \<and> draw_z rnd k < 1 \<and>
          0 \<le> draw_yaw rnd k \<and> draw_yaw rnd k < 1)"

text \<open>\<open>self._robot._ALL_INDICES\<close>.\<close>

definition ALL_INDICES :: "quad_env \<Rightarrow> nat list" where
  "ALL_INDICES env = [0..<num_envs env]"

text \<open>The first statement of \<open>_reset_idx\<close>: \<open>None\<close>, or an index tensor with as many
  entries as there are environments, stands for all of them.\<close>

definition resolve_env_ids :: "quad_env \<Rightarrow> nat list option \<Rightarrow> nat list" where
  "resolve_env_ids env env_ids =
     (case env_ids of
        None \<Rightarrow> ALL_INDICES env
      | Some ids \<Rightarrow> if length ids = num_envs env then ALL_INDICES env else ids)"

text \<open>The aggregates written to \<open>extras["log"]\<close>. The yaw error is computed, and
  averaged, over all environments, the other entries over the selected ones.\<close>

definition reset_log :: "quad_env \<Rightarrow> nat list \<Rightarrow> episode_log" where
  "reset_log env env_ids =
     (let final_distance_to_goal =
            mean (map2 (\<lambda>d p. norm3 (vec_sub d p)) (gather (desired_pos_w env) env_ids)
                    (gather (root_pos_w (robot env)) env_ids));
          final_yaw_diff = map2 angular_diff (desired_yaw_quat env) (root_quat_w (robot env));
          old_sums = episode_sums env
      in \<lparr> Episode_Reward_lin_vel =
             mean (gather (sum_lin_vel old_sums) env_ids) / max_episode_length_s env,
           Episode_Reward_ang_vel =
             mean (gather (sum_ang_vel old_sums) env_ids) / max_episode_length_s env,
           Episode_Reward_distance_to_goal_pose =
             mean (gather (sum_distance_to_goal_pose old_sums) env_ids) / max_episode_length_s env,
           Episode_Reward_radial_to_goal_yaw =
             mean (gather (sum_radial_to_goal_yaw old_sums) env_ids) / max_episode_length_s env,
           Episode_Termination_died = length (filter id (gather (reset_terminated env) env_ids)),
           Episode_Termination_time_out = length (filter id (gather (reset_time_outs env) env_ids)),
           Metrics_final_distance_to_goal = final_distance_to_goal,
           Metrics_final_yaw_diff = mean final_yaw_diff \<rparr>)"

text \<open>The goal that is sampled: x and y from \<open>uniform_(-3.0, 3.0)\<close>, then the terrain
  origin of the environment added to them (\<open>+=\<close> reads the rows just written and writes
  them back), z from \<open>uniform_(0.5, 3.0)\<close>.\<close>

definition sample_desired_pos :: "draws \<Rightarrow> quad_env \<Rightarrow> nat list \<Rightarrow> vec3 list" where
  "sample_desired_pos rnd env env_ids =
     (let rows = [0..<length env_ids];
          pos1 = index_put set_xy (desired_pos_w env) env_ids
                   (map (\<lambda>k. (uniform (- 3.0) 3.0 (fst (draw_xy rnd k)),
                              uniform (- 3.0) 3.0 (snd (draw_xy rnd k)))) rows);
          pos2 = index_put set_xy pos1 env_ids
                   (map2 add_xy (map get_xy (gather pos1 env_ids))
                      (map get_xy (gather (env_origins env) env_ids)))
      in index_put set_z pos2 env_ids (map (\<lambda>k. uniform 0.5 3.0 (draw_z rnd k)) rows))"

text \<open>The yaw that is sampled, from \<open>uniform_(0, 6.28)\<close>, and the quaternion written from
  it: columns 0 and 3 are assigned, columns 1 and 2 keep what they hold.\<close>

definition sample_desired_yaw :: "draws \<Rightarrow> quad_env \<Rightarrow> nat list \<Rightarrow> real list" where
  "sample_desired_yaw rnd env env_ids =
     index_put (\<lambda>_ v. v) (desired_yaw_w env) env_ids
       (map (\<lambda>k. uniform 0 6.28 (draw_yaw rnd k)) [0..<length env_ids])"

definition write_desired_yaw_quat :: "quad_env \<Rightarrow> real list \<Rightarrow> nat list \<Rightarrow> quat list" where
  "write_desired_yaw_quat env yaw env_ids =
     (let quat1 = index_put set_q0 (desired_yaw_quat env) env_ids
                    (map (\<lambda>y. cos (y / 2)) (gather yaw env_ids))
      in index_put set_q3 quat1 env_ids (map (\<lambda>y. sin (y / 2)) (gather yaw env_ids)))"

text \<open>\<open>_reset_idx\<close>. An index beyond the batch raises at the first indexed read. The call
  \<open>super()._reset_idx(env_ids)\<close> reaches the base class \<open>DirectRLEnv\<close> of the simulator,
  which clears \<open>episode_length_buf\<close> at \<open>env_ids\<close>; \<open>self._robot.reset\<close> and the three
  \<open>write_..._to_sim\<close> calls at the end act on the articulation inside the engine, at
  \<open>env_ids\<close>, and not on the state kept here.\<close>

definition reset_idx :: "draws \<Rightarrow> nat list option \<Rightarrow> quad_env \<Rightarrow> error + quad_env" where
  "reset_idx rnd env_ids_arg env =
     (let env_ids = resolve_env_ids env env_ids_arg
      in if \<not> list_all (\<lambda>i. i < num_envs env) env_ids then Inl IndexError
         else
           (let log = reset_log env env_ids;
                old_sums = episode_sums env;
                new_sums =
                  \<lparr> sum_lin_vel = index_fill (sum_lin_vel old_sums) env_ids 0.0,
                    sum_ang_vel = index_fill (sum_ang_vel old_sums) env_ids 0.0,
                    sum_distance_to_goal_pose =
                      index_fill (sum_distance_to_goal_pose old_sums) env_ids 0.0,
                    sum_radial_to_goal_yaw =
                      index_fill (sum_radial_to_goal_yaw old_sums) env_ids 0.0 \<rparr>;
                buf1 = index_fill (episode_length_buf env) env_ids 0;
                buf2 = (if length env_ids = num_envs env
                        then map (draw_length rnd) [0..<length buf1] else buf1);
                new_actions = index_fill (actions env) env_ids (0.0, 0.0, 0.0, 0.0);
                new_pos = sample_desired_pos rnd env env_ids;
                new_yaw = sample_desired_yaw rnd env env_ids;
                new_quat = write_desired_yaw_quat env new_yaw env_ids
            in Inr (env\<lparr> episode_sums := new_sums,
                         extras_log := log,
                         episode_length_buf := buf2,
                         actions := new_actions,
                         desired_pos_w := new_pos,
                         desired_yaw_w := new_yaw,
                         desired_yaw_quat := new_quat \<rparr>)))"

section \<open>Concrete inputs\<close>

text \<open>A trajectory with the given timestamps that moves along the x axis at one metre
  per second and turns about the z axis at \<open>pi\<close> radians per second, and a stand-in for
  the simulator's conversion to Euler angles.\<close>

definition example_trajectory :: "real list \<Rightarrow> trajectory" where
  "example_trajectory ts =
     \<lparr> getTimestamp = ts,
       getPosbyTimestamp = (\<lambda>t. (t, 0, 0)),
       getQuaternionbyTimestamp = (\<lambda>t. (1, 0, 0, 0)),
       getVelbyTimestamp = (\<lambda>t. (1, 0, 0)),
       getOmgbyTimestamp = (\<lambda>t. (0, 0, pi)) \<rparr>"

definition example_euler :: "quat \<Rightarrow> vec3" where
  "example_euler q = (0, 0, 0)"

text \<open>A batch of four environments, 5 metres apart, with steps of 0.02 seconds and
  episodes of 500 steps. The robots hover at the altitudes 0.05, 1.0, 0.1 and 2.0 metres
  with the attitude of the goal; the second one moves at 3 metres per second and sits on
  its goal.\<close>

definition example_env :: quad_env where
  "example_env =
     \<lparr> num_envs = 4,
       step_dt = 0.02,
       max_episode_length = 500,
       max_episode_length_s = 10,
       robot =
         \<lparr> root_pos_w = [(0, 0, 0.05), (5, 0, 1), (0, 5, 0.1), (5, 5, 2)],
           root_quat_w = [(1, 0, 0, 0), (1, 0, 0, 0), (1, 0, 0, 0), (1, 0, 0, 0)],
           root_lin_vel_b = [(0, 0, 0), (1, 2, 2), (0, 0, 0), (0, 0, 0)],
           root_ang_vel_b = [(0, 0, 0), (0, 0, 0), (0, 0, 1), (0, 0, 0)] \<rparr>,
       env_origins = [(0, 0, 0), (5, 0, 0), (0, 5, 0), (5, 5, 0)],
       episode_length_buf = [499, 498, 500, 0],
       reset_terminated = [True, False, False, False],
       reset_time_outs = [True, False, True, False],
       actions = [(1, 0, 0, 0), (1, 1, 1, 1), (0, 1, 0, 0), (1, 0, 0, 1)],
       desired_pos_w = [(1, 1, 1), (5, 0, 1), (1, 6, 1), (4, 4, 1)],
       desired_yaw_w = [0, 0, 0, 0],
       desired_yaw_quat = [(1, 0, 0, 0), (1, 0, 0, 0), (1, 0, 0, 0), (1, 0, 0, 0)],
       episode_sums =
         \<lparr> sum_lin_vel = [1, 2, 3, 4],
           sum_ang_vel = [1, 2, 3, 4],
           sum_distance_to_goal_pose = [1, 2, 3, 4],
           sum_radial_to_goal_yaw = [1, 2, 3, 4] \<rparr>,
       extras_log =
         \<lparr> Episode_Reward_lin_vel = 0,
           Episode_Reward_ang_vel = 0,
           Episode_Reward_distance_to_goal_pose = 0,
           Episode_Reward_radial_to_goal_yaw = 0,
           Episode_Termination_died = 0,
           Episode_Termination_time_out = 0,
           Metrics_final_distance_to_goal = 0,
           Metrics_final_yaw_diff = 0 \<rparr> \<rparr>"

text \<open>A generator whose every draw from the unit interval is one half.\<close>

definition example_draws :: draws where
  "example_draws =
     \<lparr> draw_xy = (\<lambda>k. (1 / 2, 1 / 2)),
       draw_z = (\<lambda>k. 1 / 2),
       draw_yaw = (\<lambda>k. 1 / 2),
       draw_length = (\<lambda>k. 7) \<rparr>"

section \<open>Auxiliary notions\<close>

text \<open>The angle that \<open>angular_diff\<close> makes of the scalar part of the normalised
  product.\<close>

definition fold_angle :: "real \<Rightarrow> real" where
  "fold_angle c = min (2 * arccos (clamp c (- 1) 1)) (2 * pi - 2 * arccos (clamp c (- 1) 1))"

section \<open>The sampler: which samples are visited\<close>

lemma sample_loop_nonzero:
  "interval \<noteq> 0 \<Longrightarrow>
   sample_loop q2e rt tr interval cs =
     Inr (map (sample_step q2e rt tr) (filter (\<lambda>c. int c mod interval = 0) cs))"
  by (induction cs) (simp_all add: py_mod_def)

lemma process_group_nonzero:
  "interval \<noteq> 0 \<Longrightarrow>
   process_group q2e rt tr interval = Inr (map (sample_step q2e rt tr) (visited interval (len tr)))"
  by (simp add: process_group_def visited_def sample_loop_nonzero)

lemma int_mod_zero_iff: "int c mod interval = 0 \<longleftrightarrow> c mod nat \<bar>interval\<bar> = 0"
  by fastforce

lemma stride_lists_equal:
  assumes m: "0 < m" and n: "\<And>k. k * m < L \<longleftrightarrow> k < n"
  shows "filter (\<lambda>c. c mod m = 0) [0..<L] = map (\<lambda>k. k * m) [0..<n]"
proof (rule sorted_distinct_set_unique)
  show "sorted (filter (\<lambda>c. c mod m = 0) [0..<L])" by (simp add: sorted_wrt_filter)
  show "distinct (filter (\<lambda>c. c mod m = 0) [0..<L])" by simp
  have mono: "strict_mono (\<lambda>k. k * m)" using m by (simp add: strict_mono_def)
  show "sorted (map (\<lambda>k. k * m) [0..<n])"
    by (simp add: sorted_map sorted_wrt_iff_nth_less)
  show "distinct (map (\<lambda>k. k * m) [0..<n])"
    using m by (simp add: distinct_map inj_on_def)
  show "set (filter (\<lambda>c. c mod m = 0) [0..<L]) = set (map (\<lambda>k. k * m) [0..<n])"
  proof (rule set_eqI)
    fix c
    show "c \<in> set (filter (\<lambda>c. c mod m = 0) [0..<L]) \<longleftrightarrow> c \<in> set (map (\<lambda>k. k * m) [0..<n])"
    proof
      assume "c \<in> set (filter (\<lambda>c. c mod m = 0) [0..<L])"
      then have c: "c < L" "c mod m = 0" by simp_all
      then have "c = (c div m) * m" by (simp add: mod_eq_0_iff_dvd)
      moreover from this c(1) have "c div m < n" using n [of "c div m"] by simp
      ultimately have "c \<in> (\<lambda>k. k * m) ` {0..<n}"
        by (intro image_eqI [where x = "c div m"]) simp_all
      then show "c \<in> set (map (\<lambda>k. k * m) [0..<n])" by simp
    next
      assume "c \<in> set (map (\<lambda>k. k * m) [0..<n])"
      then obtain k where "k < n" "c = k * m" by auto
      then show "c \<in> set (filter (\<lambda>c. c mod m = 0) [0..<L])" using n [of k] by simp
    qed
  qed
qed

lemma less_ceiling_stride:
  assumes "0 < m"
  shows "k * m < L \<longleftrightarrow> k < nat \<lceil>real L / real m\<rceil>"
proof -
  have "k < nat \<lceil>real L / real m\<rceil> \<longleftrightarrow> int k < \<lceil>real L / real m\<rceil>" by linarith
  also have "\<dots> \<longleftrightarrow> real k < real L / real m" by (simp add: less_ceiling_iff)
  also have "\<dots> \<longleftrightarrow> real k * real m < real L" using assms by (simp add: pos_less_divide_eq)
  also have "\<dots> \<longleftrightarrow> k * m < L" by (metis of_nat_less_iff of_nat_mult)
  finally show ?thesis by simp
qed

lemma visited_positive:
  assumes "0 < interval"
  shows "visited interval L =
         map (\<lambda>k. k * nat interval) [0..<nat \<lceil>real L / real_of_int interval\<rceil>]"
proof -
  have "visited interval L = filter (\<lambda>c. c mod nat interval = 0) [0..<L]"
    using assms by (simp add: visited_def int_mod_zero_iff)
  also have "\<dots> = map (\<lambda>k. k * nat interval) [0..<nat \<lceil>real L / real (nat interval)\<rceil>]"
    using assms by (intro stride_lists_equal less_ceiling_stride) simp_all
  finally show ?thesis using assms by simp
qed

lemma visited_negative: "visited (- interval) L = visited interval L"
  by (simp add: visited_def int_mod_zero_iff)

lemma sample_timestamp_step [simp]:
  "sample_timestamp (sample_step q2e rt tr i) = getTimestamp tr ! i"
  by (simp add: sample_step_def Let_def)

lemma delta_time_step:
  "delta_time (sample_step q2e rt tr i) =
     (if i + 1 < len tr then getTimestamp tr ! (i + 1) - getTimestamp tr ! i else 0)"
  by (simp add: sample_step_def Let_def)

lemma angular_velocity_step:
  "body_angular_velocity (sample_step q2e rt tr i) =
     vec_mul (getOmgbyTimestamp tr (getTimestamp tr ! i)) (180 / pi)"
  by (simp add: sample_step_def Let_def vec_mul_def vec_div_def split: prod.splits)

lemma visited_less: "i \<in> set (visited interval L) \<Longrightarrow> i < L"
  by (simp add: visited_def)

lemma sorted_visited: "sorted_wrt (<) (visited interval L)"
  by (simp add: visited_def sorted_wrt_filter)

lemma sorted_timestamps_visited:
  assumes "sorted_wrt (<) ts"
  shows "sorted_wrt (<) (map (\<lambda>i. ts ! i) (visited interval (length ts)))"
proof -
  let ?vs = "visited interval (length ts)"
  have "ts ! (?vs ! a) < ts ! (?vs ! b)" if "a < b" "b < length ?vs" for a b
  proof -
    have "?vs ! a < ?vs ! b"
      using sorted_visited [of interval "length ts"] that by (simp add: sorted_wrt_iff_nth_less)
    moreover have "?vs ! b < length ts"
      using that by (intro visited_less [of _ interval]) simp
    ultimately show ?thesis
      using assms by (simp add: sorted_wrt_iff_nth_less)
  qed
  then show ?thesis by (simp add: sorted_wrt_iff_nth_less)
qed

text \<open>
  Claim C7. For a sampling interval greater than zero the sampler returns normally, having
  visited exactly \<open>ceil (len / interval)\<close> samples; the \<open>k\<close>-th visit is the sample at
  index \<open>k * interval\<close>, so the visited indices are \<open>0, interval, 2 * interval, ...\<close>; and
  when the timestamps of the trajectory increase strictly, so do those of the visits.
  The witness is the trajectory of 101 samples with interval 10: 11 visits, at the
  indices \<open>0, 10, ..., 100\<close>.
\<close>

theorem sampler_visits_every_interval_th:
  assumes "0 < interval"
  shows "\<exists>out. process_group q2e rt tr interval = Inr out \<and>
           length out = nat \<lceil>real (len tr) / real_of_int interval\<rceil> \<and>
           (\<forall>k<length out. out ! k = sample_step q2e rt tr (k * nat interval)) \<and>
           (sorted_wrt (<) (getTimestamp tr) \<longrightarrow> sorted_wrt (<) (map sample_timestamp out))"
proof -
  let ?out = "map (sample_step q2e rt tr) (visited interval (len tr))"
  have run: "process_group q2e rt tr interval = Inr ?out"
    using assms by (simp add: process_group_nonzero)
  have vis: "visited interval (len tr) =
      map (\<lambda>k. k * nat interval) [0..<nat \<lceil>real (len tr) / real_of_int interval\<rceil>]"
    using assms by (rule visited_positive)
  have count: "length ?out = nat \<lceil>real (len tr) / real_of_int interval\<rceil>"
    by (simp add: vis)
  have nth: "\<forall>k<length ?out. ?out ! k = sample_step q2e rt tr (k * nat interval)"
    by (simp add: vis)
  have "map sample_timestamp ?out = map (\<lambda>i. getTimestamp tr ! i) (visited interval (length (getTimestamp tr)))"
    by (simp add: comp_def len_def)
  then have order: "sorted_wrt (<) (getTimestamp tr) \<longrightarrow> sorted_wrt (<) (map sample_timestamp ?out)"
    using sorted_timestamps_visited [of "getTimestamp tr" interval] by presburger
  from run count nth order show ?thesis by blast
qed

theorem sampler_visits_every_interval_th_witness:
  "(0::int) < 10 \<and> sorted_wrt (<) (getTimestamp (example_trajectory (map real [0..<101]))) \<and>
   (\<exists>out. process_group example_euler 50 (example_trajectory (map real [0..<101])) 10 = Inr out \<and>
      length out = 11 \<and>
      (\<forall>k<length out. out ! k = sample_step example_euler 50 (example_trajectory (map real [0..<101])) (k * 10)) \<and>
      sorted_wrt (<) (map sample_timestamp out))"
proof -
  have sorted: "sorted_wrt (<) (getTimestamp (example_trajectory (map real [0..<101])))"
    by (simp add: example_trajectory_def sorted_wrt_map sorted_wrt_iff_nth_less)
  have count: "nat \<lceil>real (len (example_trajectory (map real [0..<101]))) / real_of_int 10\<rceil> = 11"
    by (simp add: len_def example_trajectory_def)
  show ?thesis
    using sampler_visits_every_interval_th [of 10 example_euler 50 "example_trajectory (map real [0..<101])"]
      sorted count by auto
qed

lemma last_visited_index:
  fixes n L c :: nat
  assumes n: "0 < n" and c: "\<And>k. k * n < L \<longleftrightarrow> k < c" and pos: "0 < c"
  shows "(c - 1) * n < L" and "(c - 1) * n + 1 < L \<longleftrightarrow> \<not> n dvd (L - 1)"
proof -
  have "c - 1 < c" using pos by linarith
  then show lt: "(c - 1) * n < L" using c [of "c - 1"] by blast
  have ge: "L \<le> c * n" using c [of c] by simp
  show "(c - 1) * n + 1 < L \<longleftrightarrow> \<not> n dvd (L - 1)"
  proof
    assume far: "(c - 1) * n + 1 < L"
    show "\<not> n dvd (L - 1)"
    proof
      assume "n dvd (L - 1)"
      then obtain q where q: "L - 1 = q * n" by (auto simp: dvd_def mult.commute)
      with lt have "q * n < L" by linarith
      then have "q < c" using c by simp
      then have "q \<le> c - 1" by simp
      then have "q * n \<le> (c - 1) * n" by simp
      with far q show False by linarith
    qed
  next
    assume nd: "\<not> n dvd (L - 1)"
    have "(c - 1) * n \<noteq> L - 1" using nd by (metis dvd_triv_right)
    with lt show "(c - 1) * n + 1 < L" by linarith
  qed
qed

text \<open>
  Claim C1, amended. For a sampling interval greater than zero, the visit of the sample at
  index \<open>i = k * interval\<close> steps the engine with \<open>dt = timestamp[i + 1] - timestamp[i]\<close>
  when \<open>i + 1\<close> is still an index of the full trajectory, and with \<open>dt = 0\<close> when \<open>i\<close>
  is its final index. Hence, for strictly increasing timestamps, the \<open>dt\<close> of the last
  visited sample is zero exactly when that sample is the final one of the trajectory,
  which is when \<open>interval\<close> divides \<open>len - 1\<close>.
\<close>

theorem sampler_dt_to_next_unstrided:
  assumes "0 < interval"
  shows "\<exists>out. process_group q2e rt tr interval = Inr out \<and>
           (\<forall>k<length out.
              delta_time (out ! k) =
                (if k * nat interval + 1 < len tr
                 then getTimestamp tr ! (k * nat interval + 1) - getTimestamp tr ! (k * nat interval)
                 else 0)) \<and>
           (out \<noteq> [] \<and> sorted_wrt (<) (getTimestamp tr) \<longrightarrow>
              (delta_time (last out) = 0 \<longleftrightarrow> nat interval dvd (len tr - 1)))"
proof -
  let ?n = "nat interval" and ?L = "len tr"
  let ?c = "nat \<lceil>real ?L / real_of_int interval\<rceil>"
  let ?out = "map (sample_step q2e rt tr) (map (\<lambda>k. k * ?n) [0..<?c])"
  have n: "0 < ?n" using assms by simp
  have c: "k * ?n < ?L \<longleftrightarrow> k < ?c" for k
    using less_ceiling_stride [OF n, of k ?L] assms by simp
  have run: "process_group q2e rt tr interval = Inr ?out"
    using assms by (simp add: process_group_nonzero visited_positive)
  have each: "\<forall>k<length ?out.
      delta_time (?out ! k) =
        (if k * ?n + 1 < ?L
         then getTimestamp tr ! (k * ?n + 1) - getTimestamp tr ! (k * ?n) else 0)"
    by (simp add: delta_time_step)
  have final: "delta_time (last ?out) = 0 \<longleftrightarrow> ?n dvd (?L - 1)"
    if ne: "?out \<noteq> []" and sorted: "sorted_wrt (<) (getTimestamp tr)"
  proof -
    from ne have pos: "0 < ?c" by simp
    then have "last ?out = sample_step q2e rt tr ((?c - 1) * ?n)"
      by (simp add: last_map last_upt)
    then have dt: "delta_time (last ?out) =
        (if (?c - 1) * ?n + 1 < ?L
         then getTimestamp tr ! ((?c - 1) * ?n + 1) - getTimestamp tr ! ((?c - 1) * ?n) else 0)"
      by (simp add: delta_time_step)
    note idx = last_visited_index [OF n c pos]
    show ?thesis
    proof (cases "?n dvd (?L - 1)")
      case True
      with idx(2) dt show ?thesis by simp
    next
      case False
      with idx(2) have far: "(?c - 1) * ?n + 1 < ?L" by simp
      then have "getTimestamp tr ! ((?c - 1) * ?n) < getTimestamp tr ! ((?c - 1) * ?n + 1)"
        using sorted by (simp add: sorted_wrt_iff_nth_less len_def)
      with far dt False show ?thesis by simp
    qed
  qed
  from run each final show ?thesis by blast
qed


text \<open>
  The trajectory of 101 samples one second apart, with interval 10: the first visit steps
  by the one second to index 1 (not the ten seconds to index 10), the last visit, at
  index 100, by zero.
\<close>

theorem sampler_dt_to_next_unstrided_witness:
  "(0::int) < 10 \<and>
   (\<exists>out. process_group example_euler 50 (example_trajectory (map real [0..<101])) 10 = Inr out \<and>
      out \<noteq> [] \<and> sorted_wrt (<) (getTimestamp (example_trajectory (map real [0..<101]))) \<and>
      delta_time (out ! 0) = 1 \<and> delta_time (last out) = 0)"
proof -
  let ?tr = "example_trajectory (map real [0..<101])"
  have sorted: "sorted_wrt (<) (getTimestamp ?tr)"
    by (simp add: example_trajectory_def sorted_wrt_map sorted_wrt_iff_nth_less)
  have L: "len ?tr = 101" by (simp add: len_def example_trajectory_def)
  have ts: "getTimestamp ?tr ! 1 - getTimestamp ?tr ! 0 = 1"
    by (simp add: example_trajectory_def)
  obtain out where run: "process_group example_euler 50 ?tr 10 = Inr out"
    and each: "\<forall>k<length out.
              delta_time (out ! k) =
                (if k * nat 10 + 1 < len ?tr
                 then getTimestamp ?tr ! (k * nat 10 + 1) - getTimestamp ?tr ! (k * nat 10)
                 else 0)"
    and final: "out \<noteq> [] \<and> sorted_wrt (<) (getTimestamp ?tr) \<longrightarrow>
              (delta_time (last out) = 0 \<longleftrightarrow> nat 10 dvd (len ?tr - 1))"
    using sampler_dt_to_next_unstrided [of 10 example_euler 50 ?tr] by auto
  have "length out = 11"
    using run by (auto simp: process_group_nonzero visited_positive L)
  then have ne: "out \<noteq> []" and "0 < length out" by auto
  with each have "delta_time (out ! 0) = getTimestamp ?tr ! 1 - getTimestamp ?tr ! 0"
    by (simp add: L)
  with ts have first: "delta_time (out ! 0) = 1" by simp
  have "nat 10 dvd (len ?tr - 1)" by (simp add: L)
  with final ne sorted have "delta_time (last out) = 0" by simp
  with run ne sorted first show ?thesis by simp
qed

text \<open>
  Claim C1 as stated fails where the last visited sample is not the final one: with two
  samples and interval 2 the only visit is index 0, and its \<open>dt\<close> is one second.
\<close>

theorem sampler_last_dt_counterexample:
  "process_group example_euler 50 (example_trajectory [0, 1]) 2 =
     Inr [sample_step example_euler 50 (example_trajectory [0, 1]) 0] \<and>
   delta_time (sample_step example_euler 50 (example_trajectory [0, 1]) 0) = 1"
  by (simp add: process_group_def len_def example_trajectory_def py_mod_def sample_step_def
      upt_conv_Cons)

lemma process_group_zero:
  "process_group q2e rt tr 0 = (if len tr = 0 then Inr [] else Inl ZeroDivisionError)"
  by (simp add: process_group_def py_mod_def upt_conv_Cons)

text \<open>
  Claim C8, amended. The sampler has no check of the interval. With interval 0 the test
  \<open>sample_counter % interval\<close> raises \<open>ZeroDivisionError\<close> at the first sample, before
  anything is handed to the engine, and an empty trajectory is processed without error.
  With a negative interval nothing fails: the sampler visits every \<open>|interval|\<close>-th
  sample, exactly as with the interval \<open>- interval\<close>.
\<close>

theorem sampler_nonpositive_interval:
  "process_group q2e rt tr 0 = (if len tr = 0 then Inr [] else Inl ZeroDivisionError) \<and>
   (interval < 0 \<longrightarrow>
      process_group q2e rt tr interval = process_group q2e rt tr (- interval) \<and>
      process_group q2e rt tr interval =
        Inr (map (sample_step q2e rt tr)
               (map (\<lambda>k. k * nat (- interval)) [0..<nat \<lceil>real (len tr) / real_of_int (- interval)\<rceil>])))"
proof -
  have "process_group q2e rt tr interval = process_group q2e rt tr (- interval)"
    and "process_group q2e rt tr interval =
        Inr (map (sample_step q2e rt tr)
               (map (\<lambda>k. k * nat (- interval)) [0..<nat \<lceil>real (len tr) / real_of_int (- interval)\<rceil>]))"
    if "interval < 0"
  proof -
    from that have nz: "interval \<noteq> 0" "- interval \<noteq> 0" and pos: "0 < - interval" by simp_all
    show "process_group q2e rt tr interval = process_group q2e rt tr (- interval)"
      using nz by (simp add: process_group_nonzero visited_negative)
    have "visited interval (len tr) = visited (- interval) (len tr)"
      by (simp only: visited_negative)
    then show "process_group q2e rt tr interval =
        Inr (map (sample_step q2e rt tr)
               (map (\<lambda>k. k * nat (- interval)) [0..<nat \<lceil>real (len tr) / real_of_int (- interval)\<rceil>]))"
      using nz(1) visited_positive [OF pos, of "len tr"] by (simp add: process_group_nonzero)
  qed
  then show ?thesis using process_group_zero by blast
qed

text \<open>
  Two samples: interval 0 raises, interval \<open>-1\<close> behaves as interval 1.
\<close>

theorem sampler_nonpositive_interval_witness:
  "(- 1 :: int) < 0 \<and>
   process_group example_euler 50 (example_trajectory [0, 1]) 0 = Inl ZeroDivisionError \<and>
   process_group example_euler 50 (example_trajectory [0, 1]) (- 1) =
     process_group example_euler 50 (example_trajectory [0, 1]) 1"
  using sampler_nonpositive_interval [of example_euler 50 "example_trajectory [0, 1]" "- 1"]
  by (simp add: len_def example_trajectory_def)

text \<open>
  Claim C8 as stated fails for a negative interval: with two samples and interval \<open>-1\<close>
  the sampler returns normally after visiting both.
\<close>

theorem sampler_negative_interval_counterexample:
  "process_group example_euler 50 (example_trajectory [0, 1]) (- 1) =
     Inr [sample_step example_euler 50 (example_trajectory [0, 1]) 0,
          sample_step example_euler 50 (example_trajectory [0, 1]) 1]"
  by (simp add: process_group_def len_def example_trajectory_def py_mod_def upt_conv_Cons)

text \<open>
  Claim C10. Every visit hands to \<open>rep.physics.rigid_body\<close> the angular velocity that the
  trajectory stores for the timestamp of the visited sample, multiplied by \<open>180 / pi\<close>.
\<close>

theorem sampler_angular_velocity_in_degrees:
  assumes "interval \<noteq> 0"
  shows "\<exists>out. process_group q2e rt tr interval = Inr out \<and>
           (\<forall>call\<in>set out.
              body_angular_velocity call =
                vec_mul (getOmgbyTimestamp tr (sample_timestamp call)) (180 / pi))"
proof -
  have "process_group q2e rt tr interval =
          Inr (map (sample_step q2e rt tr) (visited interval (len tr)))"
    using assms by (rule process_group_nonzero)
  moreover have "\<forall>call\<in>set (map (sample_step q2e rt tr) (visited interval (len tr))).
      body_angular_velocity call =
        vec_mul (getOmgbyTimestamp tr (sample_timestamp call)) (180 / pi)"
    by (auto simp: angular_velocity_step)
  ultimately show ?thesis by blast
qed

text \<open>
  A stored rate of \<open>pi\<close> radians per second about z is handed over as 180.
\<close>

theorem sampler_angular_velocity_in_degrees_witness:
  "(1::int) \<noteq> 0 \<and>
   (\<exists>out. process_group example_euler 50 (example_trajectory [0, 1]) 1 = Inr out \<and>
      out \<noteq> [] \<and> (\<forall>call\<in>set out. body_angular_velocity call = (0, 0, 180)))"
proof -
  have "process_group example_euler 50 (example_trajectory [0, 1]) 1 =
     Inr [sample_step example_euler 50 (example_trajectory [0, 1]) 0,
          sample_step example_euler 50 (example_trajectory [0, 1]) 1]"
    by (simp add: process_group_def len_def example_trajectory_def py_mod_def upt_conv_Cons)
  moreover have "vec_mul (getOmgbyTimestamp (example_trajectory [0, 1]) t) (180 / pi) = (0, 0, 180)" for t
    by (simp add: example_trajectory_def vec_mul_def)
  ultimately show ?thesis
    using sampler_angular_velocity_in_degrees [of 1 example_euler 50 "example_trajectory [0, 1]"]
    by auto
qed

section \<open>The yaw error\<close>

lemma quat_norm_mul: "quat_norm (quat_mul a b) = quat_norm a * quat_norm b"
proof -
  obtain a0 a1 a2 a3 where a: "a = (a0, a1, a2, a3)" by (cases a) auto
  obtain b0 b1 b2 b3 where b: "b = (b0, b1, b2, b3)" by (cases b) auto
  have "(a0 * b0 - a1 * b1 - a2 * b2 - a3 * b3)\<^sup>2 + (a0 * b1 + a1 * b0 + a2 * b3 - a3 * b2)\<^sup>2 +
        (a0 * b2 - a1 * b3 + a2 * b0 + a3 * b1)\<^sup>2 + (a0 * b3 + a1 * b2 - a2 * b1 + a3 * b0)\<^sup>2 =
        (a0\<^sup>2 + a1\<^sup>2 + a2\<^sup>2 + a3\<^sup>2) * (b0\<^sup>2 + b1\<^sup>2 + b2\<^sup>2 + b3\<^sup>2)"
    by (simp add: power2_eq_square algebra_simps)
  then show ?thesis
    by (simp add: a b quat_norm_def quat_mul_def real_sqrt_mult)
qed

lemma quat_norm_conj [simp]: "quat_norm (quat_conj q) = quat_norm q"
  by (cases q) (simp add: quat_norm_def quat_conj_def)

lemma quat_norm_neg [simp]: "quat_norm (quat_neg q) = quat_norm q"
  by (cases q) (simp add: quat_norm_def quat_neg_def)

lemma fst_quat_div: "fst (quat_div q n) = fst q / n"
  by (cases q) (simp add: quat_div_def)

lemma fst_mul_conj_commute: "fst (quat_mul a (quat_conj b)) = fst (quat_mul b (quat_conj a))"
  by (cases a, cases b) (simp add: quat_mul_def quat_conj_def algebra_simps)

lemma fst_mul_conj_self: "fst (quat_mul q (quat_conj q)) = (quat_norm q)\<^sup>2"
proof -
  obtain w x y z where q: "q = (w, x, y, z)" by (cases q) auto
  have "0 \<le> w\<^sup>2 + x\<^sup>2 + y\<^sup>2 + z\<^sup>2" by simp
  then show ?thesis
    by (simp add: q quat_mul_def quat_conj_def quat_norm_def power2_eq_square algebra_simps)
qed

lemma fst_mul_conj_neg: "fst (quat_mul q (quat_conj (quat_neg q))) = - (quat_norm q)\<^sup>2"
proof -
  obtain w x y z where q: "q = (w, x, y, z)" by (cases q) auto
  have "0 \<le> w\<^sup>2 + x\<^sup>2 + y\<^sup>2 + z\<^sup>2" by simp
  then show ?thesis
    by (simp add: q quat_mul_def quat_conj_def quat_neg_def quat_norm_def power2_eq_square algebra_simps)
qed

lemma fst_mul_neg_conj: "fst (quat_mul (quat_neg q) (quat_conj q)) = - (quat_norm q)\<^sup>2"
proof -
  obtain w x y z where q: "q = (w, x, y, z)" by (cases q) auto
  have "0 \<le> w\<^sup>2 + x\<^sup>2 + y\<^sup>2 + z\<^sup>2" by simp
  then show ?thesis
    by (simp add: q quat_mul_def quat_conj_def quat_neg_def quat_norm_def power2_eq_square algebra_simps)
qed

lemma angular_diff_fold:
  "angular_diff d c =
     fold_angle (fst (quat_mul d (quat_conj c)) / (quat_norm d * quat_norm c))"
  by (simp add: angular_diff_def Let_def fold_angle_def fst_quat_div quat_norm_mul)

lemma clamp_bounds: "- 1 \<le> clamp c (- 1) 1" "clamp c (- 1) 1 \<le> 1"
  by (simp_all add: clamp_def)

lemma fold_angle_range: "0 \<le> fold_angle c" "fold_angle c \<le> pi"
proof -
  have "0 \<le> arccos (clamp c (- 1) 1)" "arccos (clamp c (- 1) 1) \<le> pi"
    using clamp_bounds [of c] by (simp_all add: arccos_lbound arccos_ubound)
  then show "0 \<le> fold_angle c" "fold_angle c \<le> pi"
    by (simp_all add: fold_angle_def min_def)
qed

lemma fold_angle_one: "fold_angle 1 = 0"
  by (simp add: fold_angle_def clamp_def)

lemma fold_angle_minus_one: "fold_angle (- 1) = 0"
  by (simp add: fold_angle_def clamp_def)

lemma angular_diff_commute: "angular_diff a b = angular_diff b a"
  by (simp add: angular_diff_fold fst_mul_conj_commute [of a b] mult.commute)

text \<open>
  Claim C9. For quaternions \<open>q1\<close>, \<open>q2\<close> of norm one the yaw error of the source is
  \<open>min d (2 * pi - d)\<close> with \<open>d = 2 * arccos (clamp w (-1) 1)\<close> and \<open>w\<close> the scalar part
  of \<open>q1 * conj q2\<close>; it is symmetric in \<open>q1\<close> and \<open>q2\<close>, lies between 0 and \<open>pi\<close>, and
  is zero for \<open>q1 = q2\<close> and for \<open>q1 = - q2\<close>.
\<close>

theorem yaw_angular_diff_properties:
  assumes "quat_norm q1 = 1" and "quat_norm q2 = 1"
  shows "angular_diff q1 q2 =
           min (2 * arccos (clamp (fst (quat_mul q1 (quat_conj q2))) (- 1) 1))
               (2 * pi - 2 * arccos (clamp (fst (quat_mul q1 (quat_conj q2))) (- 1) 1)) \<and>
         angular_diff q1 q2 = angular_diff q2 q1 \<and>
         0 \<le> angular_diff q1 q2 \<and> angular_diff q1 q2 \<le> pi \<and>
         angular_diff q1 q1 = 0 \<and>
         angular_diff q1 (quat_neg q1) = 0 \<and> angular_diff (quat_neg q1) q1 = 0"
proof -
  have "angular_diff q1 q2 = fold_angle (fst (quat_mul q1 (quat_conj q2)))"
    using assms by (simp add: angular_diff_fold)
  then have formula: "angular_diff q1 q2 =
           min (2 * arccos (clamp (fst (quat_mul q1 (quat_conj q2))) (- 1) 1))
               (2 * pi - 2 * arccos (clamp (fst (quat_mul q1 (quat_conj q2))) (- 1) 1))"
    by (simp add: fold_angle_def)
  have range: "0 \<le> angular_diff q1 q2" "angular_diff q1 q2 \<le> pi"
    by (simp_all add: angular_diff_fold fold_angle_range)
  have same: "angular_diff q1 q1 = 0"
    using assms(1) by (simp add: angular_diff_fold fst_mul_conj_self fold_angle_one)
  have flip1: "angular_diff q1 (quat_neg q1) = 0"
    using assms(1) by (simp add: angular_diff_fold fst_mul_conj_neg fold_angle_minus_one)
  have flip2: "angular_diff (quat_neg q1) q1 = 0"
    using assms(1) by (simp add: angular_diff_fold fst_mul_neg_conj fold_angle_minus_one)
  from formula range same flip1 flip2 angular_diff_commute [of q1 q2] show ?thesis by simp
qed

text \<open>
  The identity and the half turn about z: the error is \<open>pi\<close> either way round, and zero
  between the identity and itself or its negative.
\<close>

theorem yaw_angular_diff_properties_witness:
  "quat_norm (1, 0, 0, 0) = 1 \<and> quat_norm (0, 0, 0, 1) = 1 \<and>
   angular_diff (1, 0, 0, 0) (0, 0, 0, 1) = angular_diff (0, 0, 0, 1) (1, 0, 0, 0) \<and>
   angular_diff (1, 0, 0, 0) (0, 0, 0, 1) = pi \<and>
   angular_diff (1, 0, 0, 0) (1, 0, 0, 0) = 0 \<and>
   angular_diff (1, 0, 0, 0) (quat_neg (1, 0, 0, 0)) = 0"
proof -
  have n1: "quat_norm (1, 0, 0, 0) = 1" and n2: "quat_norm (0, 0, 0, 1) = 1"
    by (simp_all add: quat_norm_def)
  have "fst (quat_mul (1, 0, 0, 0) (quat_conj (0, 0, 0, 1))) = 0"
    by (simp add: quat_mul_def quat_conj_def)
  then show ?thesis
    using yaw_angular_diff_properties [OF n1 n2] n1 n2 by (simp add: clamp_def)
qed

section \<open>Termination flags\<close>

text \<open>
  Claim C5. For every environment the flag \<open>died\<close> is true exactly when the world-frame z
  of the robot root lies outside the closed band from 0.1 to 2.0 metres.
\<close>

theorem died_outside_altitude_band:
  assumes "i < length (root_pos_w (robot env))"
  shows "fst (get_dones env) ! i \<longleftrightarrow> snd (snd (root_pos_w (robot env) ! i)) \<notin> {0.1 .. 2.0}"
  using assms by (auto simp: get_dones_def Let_def split: prod.splits)

text \<open>
  Robots at 0.05, 1.0, 0.1 and 2.0 metres: only the first has died.
\<close>

theorem died_outside_altitude_band_witness:
  "0 < length (root_pos_w (robot example_env)) \<and>
   snd (snd (root_pos_w (robot example_env) ! 0)) = 0.05 \<and>
   fst (get_dones example_env) ! 0 \<and>
   fst (get_dones example_env) = [True, False, False, False]"
proof -
  have "fst (get_dones example_env) = [True, False, False, False]"
    by (simp add: get_dones_def example_env_def)
  then show ?thesis
    using died_outside_altitude_band [of 0 example_env] by (simp add: example_env_def)
qed

text \<open>
  Claim C6. For every environment the flag \<open>time_out\<close> is true exactly when the step
  counter has reached \<open>max_episode_length - 1\<close>, and so is false at every smaller count.
\<close>

theorem timed_out_at_boundary:
  assumes "i < length (episode_length_buf env)"
  shows "snd (get_dones env) ! i \<longleftrightarrow> max_episode_length env - 1 \<le> episode_length_buf env ! i"
  using assms by (simp add: get_dones_def Let_def)

text \<open>
  Episodes of 500 steps with the counters 499, 498, 500 and 0: the flag is set at 499 and
  500, not at 498.
\<close>

theorem timed_out_at_boundary_witness:
  "0 < length (episode_length_buf example_env) \<and>
   episode_length_buf example_env ! 0 = max_episode_length example_env - 1 \<and>
   snd (get_dones example_env) ! 0 \<and>
   snd (get_dones example_env) = [True, False, True, False]"
proof -
  have "snd (get_dones example_env) = [True, False, True, False]"
    by (simp add: get_dones_def example_env_def)
  then show ?thesis
    using timed_out_at_boundary [of 0 example_env] by (simp add: example_env_def)
qed

section \<open>The reward\<close>

lemma reward_terms_nth:
  assumes "wf_env env" and "i < num_envs env"
  shows "rew_lin_vel (reward_terms env) ! i =
           (- 0.01 * sum_square (root_lin_vel_b (robot env) ! i)) * step_dt env"
    and "rew_ang_vel (reward_terms env) ! i =
           (- 0.002 * sum_square (root_ang_vel_b (robot env) ! i)) * step_dt env"
    and "rew_distance_to_goal_pose (reward_terms env) ! i =
           (30 * (1 - tanh (norm3 (vec_sub (desired_pos_w env ! i) (root_pos_w (robot env) ! i)) / 0.8)))
             * step_dt env"
    and "rew_radial_to_goal_yaw (reward_terms env) ! i =
           (5 * (1 - angular_diff (desired_yaw_quat env ! i) (root_quat_w (robot env) ! i) / pi))
             * step_dt env"
  using assms
  by (simp_all add: reward_terms_def Let_def wf_env_def lin_vel_reward_scale_def
      ang_vel_reward_scale_def distance_to_goal_reward_scale_def
      radial_to_goal_yaw_reward_scale_def)

lemma reward_terms_length:
  assumes "wf_env env"
  shows "length (rew_lin_vel (reward_terms env)) = num_envs env"
    and "length (rew_ang_vel (reward_terms env)) = num_envs env"
    and "length (rew_distance_to_goal_pose (reward_terms env)) = num_envs env"
    and "length (rew_radial_to_goal_yaw (reward_terms env)) = num_envs env"
  using assms by (simp_all add: reward_terms_def Let_def wf_env_def)

text \<open>
  Claim C2. For every environment \<open>i\<close> of the batch the reward that \<open>_get_rewards\<close>
  returns is the sum of four terms, each multiplied by \<open>step_dt\<close>: \<open>- k1\<close> times the
  squared norm of the body-frame linear velocity, \<open>- k2\<close> times that of the body-frame
  angular velocity, \<open>k3 * (1 - tanh (distance to goal / 0.8))\<close> and
  \<open>k4 * (1 - angular_diff / pi)\<close>, with \<open>k1 = 0.01\<close>, \<open>k2 = 0.002\<close>, \<open>k3 = 30\<close> and
  \<open>k4 = 5\<close> (the configured scales \<open>-0.01\<close> and \<open>-0.002\<close> carry the sign of the first
  two); and each term is added to the running sum of its name for that environment.
\<close>

theorem reward_is_sum_of_four_terms:
  assumes "wf_env env" and "i < num_envs env"
  shows "fst (get_rewards env) ! i =
           (- 0.01 * sum_square (root_lin_vel_b (robot env) ! i)) * step_dt env +
           (- 0.002 * sum_square (root_ang_vel_b (robot env) ! i)) * step_dt env +
           (30 * (1 - tanh (norm3 (vec_sub (desired_pos_w env ! i) (root_pos_w (robot env) ! i)) / 0.8)))
             * step_dt env +
           (5 * (1 - angular_diff (desired_yaw_quat env ! i) (root_quat_w (robot env) ! i) / pi))
             * step_dt env \<and>
         sum_lin_vel (episode_sums (snd (get_rewards env))) ! i =
           sum_lin_vel (episode_sums env) ! i +
           (- 0.01 * sum_square (root_lin_vel_b (robot env) ! i)) * step_dt env \<and>
         sum_ang_vel (episode_sums (snd (get_rewards env))) ! i =
           sum_ang_vel (episode_sums env) ! i +
           (- 0.002 * sum_square (root_ang_vel_b (robot env) ! i)) * step_dt env \<and>
         sum_distance_to_goal_pose (episode_sums (snd (get_rewards env))) ! i =
           sum_distance_to_goal_pose (episode_sums env) ! i +
           (30 * (1 - tanh (norm3 (vec_sub (desired_pos_w env ! i) (root_pos_w (robot env) ! i)) / 0.8)))
             * step_dt env \<and>
         sum_radial_to_goal_yaw (episode_sums (snd (get_rewards env))) ! i =
           sum_radial_to_goal_yaw (episode_sums env) ! i +
           (5 * (1 - angular_diff (desired_yaw_quat env ! i) (root_quat_w (robot env) ! i) / pi))
             * step_dt env"
proof -
  note len = reward_terms_length [OF assms(1)]
  note nth = reward_terms_nth [OF assms]
  have sums: "length (sum_lin_vel (episode_sums env)) = num_envs env"
    "length (sum_ang_vel (episode_sums env)) = num_envs env"
    "length (sum_distance_to_goal_pose (episode_sums env)) = num_envs env"
    "length (sum_radial_to_goal_yaw (episode_sums env)) = num_envs env"
    using assms(1) by (simp_all add: wf_env_def)
  have reward: "fst (get_rewards env) ! i =
      rew_lin_vel (reward_terms env) ! i + rew_ang_vel (reward_terms env) ! i +
      rew_distance_to_goal_pose (reward_terms env) ! i + rew_radial_to_goal_yaw (reward_terms env) ! i"
    using assms(2) len by (simp add: get_rewards_def Let_def)
  have s1: "sum_lin_vel (episode_sums (snd (get_rewards env))) ! i =
      sum_lin_vel (episode_sums env) ! i + rew_lin_vel (reward_terms env) ! i"
    using assms(2) len sums by (simp add: get_rewards_def Let_def)
  have s2: "sum_ang_vel (episode_sums (snd (get_rewards env))) ! i =
      sum_ang_vel (episode_sums env) ! i + rew_ang_vel (reward_terms env) ! i"
    using assms(2) len sums by (simp add: get_rewards_def Let_def)
  have s3: "sum_distance_to_goal_pose (episode_sums (snd (get_rewards env))) ! i =
      sum_distance_to_goal_pose (episode_sums env) ! i + rew_distance_to_goal_pose (reward_terms env) ! i"
    using assms(2) len sums by (simp add: get_rewards_def Let_def)
  have s4: "sum_radial_to_goal_yaw (episode_sums (snd (get_rewards env))) ! i =
      sum_radial_to_goal_yaw (episode_sums env) ! i + rew_radial_to_goal_yaw (reward_terms env) ! i"
    using assms(2) len sums by (simp add: get_rewards_def Let_def)
  show ?thesis
    unfolding reward s1 s2 s3 s4 nth by simp
qed

lemma example_env_wf: "wf_env example_env"
  by (simp add: wf_env_def example_env_def)

lemma angular_diff_identity: "angular_diff (1, 0, 0, 0) (1, 0, 0, 0) = 0"
  by (simp add: angular_diff_def quat_conj_def quat_mul_def quat_norm_def quat_div_def clamp_def)

text \<open>
  The second example environment: speed 3, no rotation, on its goal, attitude of the goal.
  The terms are \<open>-0.0018\<close>, \<open>0\<close>, \<open>0.6\<close> and \<open>0.1\<close>, and each running sum, 2 before the
  step, has grown by its term.
\<close>

theorem reward_is_sum_of_four_terms_witness:
  "wf_env example_env \<and> 1 < num_envs example_env \<and>
   fst (get_rewards example_env) ! 1 = - 0.0018 + 0 + 0.6 + 0.1 \<and>
   sum_lin_vel (episode_sums (snd (get_rewards example_env))) ! 1 = 2 - 0.0018 \<and>
   sum_ang_vel (episode_sums (snd (get_rewards example_env))) ! 1 = 2 \<and>
   sum_distance_to_goal_pose (episode_sums (snd (get_rewards example_env))) ! 1 = 2.6 \<and>
   sum_radial_to_goal_yaw (episode_sums (snd (get_rewards example_env))) ! 1 = 2.1"
proof -
  have n: "1 < num_envs example_env" by (simp add: example_env_def)
  have vals: "root_lin_vel_b (robot example_env) ! 1 = (1, 2, 2)"
    "root_ang_vel_b (robot example_env) ! 1 = (0, 0, 0)"
    "desired_pos_w example_env ! 1 = (5, 0, 1)"
    "root_pos_w (robot example_env) ! 1 = (5, 0, 1)"
    "desired_yaw_quat example_env ! 1 = (1, 0, 0, 0)"
    "root_quat_w (robot example_env) ! 1 = (1, 0, 0, 0)"
    "step_dt example_env = 0.02"
    "sum_lin_vel (episode_sums example_env) ! 1 = 2"
    "sum_ang_vel (episode_sums example_env) ! 1 = 2"
    "sum_distance_to_goal_pose (episode_sums example_env) ! 1 = 2"
    "sum_radial_to_goal_yaw (episode_sums example_env) ! 1 = 2"
    by (simp_all add: example_env_def)
  show ?thesis
    using reward_is_sum_of_four_terms [OF example_env_wf n] example_env_wf n
    unfolding vals
    by (simp add: angular_diff_identity sum_square_def norm3_def vec_sub_def)
qed

section \<open>A lower bound of \<open>pi\<close>\<close>

lemma sin_coeff_upto_6:
  "sin_coeff 0 = 0" "sin_coeff (Suc 0) = 1" "sin_coeff 2 = 0" "sin_coeff 3 = - 1 / 6"
  "sin_coeff 4 = 0" "sin_coeff 5 = 1 / 120" "sin_coeff 6 = 0"
  by (simp_all add: sin_coeff_def fact_numeral)

lemma sin_approx_157_300: "sin (157 / 300 :: real) < 1 / 2"
proof -
  let ?x = "157 / 300 :: real"
  have "\<bar>sin ?x - (\<Sum>m<7. sin_coeff m * ?x ^ m)\<bar> \<le> inverse (fact 7) * \<bar>?x\<bar> ^ 7"
    by (rule Maclaurin_sin_bound)
  then have "sin ?x \<le> (\<Sum>m<7. sin_coeff m * ?x ^ m) + inverse (fact 7) * \<bar>?x\<bar> ^ 7"
    by linarith
  also have "{..<7::nat} = {0, 1, 2, 3, 4, 5, 6}" by auto
  then have "(\<Sum>m<7. sin_coeff m * ?x ^ m) = ?x - ?x ^ 3 / 6 + ?x ^ 5 / 120"
    by (simp add: sin_coeff_upto_6)
  also have "?x - ?x ^ 3 / 6 + ?x ^ 5 / 120 + inverse (fact 7) * \<bar>?x\<bar> ^ 7 < 1 / 2"
    by (simp add: fact_numeral power_divide)
  finally show ?thesis .
qed

lemma pi_gt_314: "3.14 < pi"
proof -
  have "sin (157 / 300 :: real) < sin (pi / 6)"
    using sin_approx_157_300 by (simp add: sin_30)
  moreover have "- (pi / 2) \<le> 157 / 300" "(157 / 300 :: real) \<le> pi / 2"
    "- (pi / 2) \<le> pi / 6" "pi / 6 \<le> pi / 2"
    using pi_ge_two by simp_all
  ultimately have "157 / 300 < pi / 6"
    by (simp only: sin_mono_less_eq)
  then show ?thesis by simp
qed


section \<open>Writes through an index tensor\<close>

lemma length_fold_update:
  "length (fold (\<lambda>(i, v) acc. acc[i := w (acc ! i) v]) ps xs) = length xs"
  by (induction ps arbitrary: xs) (auto split: prod.splits)

lemma length_index_put [simp]: "length (index_put w xs ids vals) = length xs"
  by (simp add: index_put_def length_fold_update)

lemma length_index_fill [simp]: "length (index_fill xs ids c) = length xs"
  by (simp add: index_fill_def)

lemma fold_update_notin:
  "i \<notin> fst ` set ps \<Longrightarrow> fold (\<lambda>(i, v) acc. acc[i := w (acc ! i) v]) ps xs ! i = xs ! i"
  by (induction ps arbitrary: xs) (auto split: prod.splits)

lemma index_put_notin: "i \<notin> set ids \<Longrightarrow> index_put w xs ids vals ! i = xs ! i"
proof -
  assume "i \<notin> set ids"
  then have "i \<notin> fst ` set (zip ids vals)"
    by (auto dest: set_zip_leftD)
  then show ?thesis by (simp add: index_put_def fold_update_notin)
qed

lemma index_fill_notin: "i \<notin> set ids \<Longrightarrow> index_fill xs ids c ! i = xs ! i"
  by (simp add: index_fill_def index_put_notin)

lemma fold_update_preserve:
  assumes "\<And>row v. f (w row v) = f row" and "i < length xs"
  shows "f (fold (\<lambda>(i, v) acc. acc[i := w (acc ! i) v]) ps xs ! i) = f (xs ! i)"
  using assms(2)
proof (induction ps arbitrary: xs)
  case Nil
  then show ?case by simp
next
  case (Cons p ps)
  obtain j v where p: "p = (j, v)" by (cases p)
  have "f (fold (\<lambda>(i, v) acc. acc[i := w (acc ! i) v]) ps (xs[j := w (xs ! j) v]) ! i) =
        f (xs[j := w (xs ! j) v] ! i)"
    using Cons.prems by (intro Cons.IH) simp
  also have "\<dots> = f (xs ! i)"
    using Cons.prems assms(1) by (cases "i = j") simp_all
  finally show ?case by (simp add: p)
qed

lemma index_put_preserve:
  assumes "\<And>row v. f (w row v) = f row" and "i < length xs"
  shows "f (index_put w xs ids vals ! i) = f (xs ! i)"
  unfolding index_put_def using assms by (rule fold_update_preserve)

lemma fold_update_in:
  assumes "i < length xs" and "i \<in> fst ` set ps"
    and "\<And>v row. (i, v) \<in> set ps \<Longrightarrow> P (w row v)"
  shows "P (fold (\<lambda>(i, v) acc. acc[i := w (acc ! i) v]) ps xs ! i)"
  using assms
proof (induction ps arbitrary: xs)
  case Nil
  then show ?case by simp
next
  case (Cons p ps)
  obtain j v where p: "p = (j, v)" by (cases p)
  let ?xs = "xs[j := w (xs ! j) v]"
  show ?case
  proof (cases "i \<in> fst ` set ps")
    case True
    have "P (fold (\<lambda>(i, v) acc. acc[i := w (acc ! i) v]) ps ?xs ! i)"
    proof (rule Cons.IH)
      show "i < length ?xs" using Cons.prems(1) by simp
      show "i \<in> fst ` set ps" by (rule True)
      show "P (w row u)" if "(i, u) \<in> set ps" for u row
        by (rule Cons.prems(3)) (simp add: that)
    qed
    then show ?thesis by (simp add: p)
  next
    case False
    with Cons.prems(2) have ij: "i = j" by (simp add: p)
    have "fold (\<lambda>(i, v) acc. acc[i := w (acc ! i) v]) ps ?xs ! i = ?xs ! i"
      using False by (rule fold_update_notin)
    also have "\<dots> = w (xs ! j) v" using Cons.prems(1) ij by simp
    finally show ?thesis using Cons.prems(3) [of v "xs ! j"] by (simp add: p ij)
  qed
qed

lemma index_put_in:
  assumes "i < length xs" and "i \<in> set ids" and "length vals = length ids"
    and "\<And>k row. k < length ids \<Longrightarrow> ids ! k = i \<Longrightarrow> P (w row (vals ! k))"
  shows "P (index_put w xs ids vals ! i)"
  unfolding index_put_def
proof (rule fold_update_in)
  show "i < length xs" by fact
  have "map fst (zip ids vals) = ids" using assms(3) by simp
  then have "set (map fst (zip ids vals)) = set ids" by (simp only:)
  then have "fst ` set (zip ids vals) = set ids" by (simp only: set_map)
  then show "i \<in> fst ` set (zip ids vals)" using assms(2) by simp
  show "P (w row v)" if "(i, v) \<in> set (zip ids vals)" for v row
  proof -
    from that have "\<exists>n. ids ! n = fst (i, v) \<and> vals ! n = snd (i, v) \<and> n < length ids \<and> n < length vals"
      by (simp only: in_set_zip)
    then obtain k where "k < length ids" "ids ! k = i" "vals ! k = v"
      by auto
    then show ?thesis using assms(4) [of k row] by simp
  qed
qed

lemma index_fill_in:
  assumes "i < length xs" and "i \<in> set ids"
  shows "index_fill xs ids c ! i = c"
  unfolding index_fill_def
proof (rule index_put_in [where P = "\<lambda>r. r = c"])
  show "i < length xs" and "i \<in> set ids" by fact+
  show "length (replicate (length ids) c) = length ids" by simp
  show "replicate (length ids) c ! k = c" if "k < length ids" for k
    using that by simp
qed


section \<open>Reset of a selection of environments\<close>

lemma uniform_bounds:
  assumes "0 \<le> u" and "u < 1" and "lo < hi"
  shows "lo \<le> uniform lo hi u" and "uniform lo hi u < hi"
proof -
  have "0 \<le> (hi - lo) * u" using assms by simp
  then show "lo \<le> uniform lo hi u" by (simp add: uniform_def)
  have "(hi - lo) * u < (hi - lo) * 1"
    using assms by (intro mult_strict_left_mono) simp_all
  then show "uniform lo hi u < hi" by (simp add: uniform_def)
qed

lemma get_xy_set_xy [simp]: "get_xy (set_xy row v) = v"
  by (cases row) (simp add: get_xy_def set_xy_def)

lemma get_xy_set_z [simp]: "get_xy (set_z row v) = get_xy row"
  by (cases row) (simp add: get_xy_def set_z_def)

lemma z_set_z [simp]: "snd (snd (set_z row v)) = v"
  by (cases row) (simp add: set_z_def)

lemma get_xy_proj: "get_xy row = (fst row, fst (snd row))"
  by (cases row) (simp add: get_xy_def)

lemma sample_desired_pos_selected:
  assumes draws: "unit_draws rnd" and i: "i < length (desired_pos_w env)" "i \<in> set env_ids"
  shows "fst (sample_desired_pos rnd env env_ids ! i) - fst (env_origins env ! i) \<in> {- 3 ..< 3}"
    and "fst (snd (sample_desired_pos rnd env env_ids ! i)) - fst (snd (env_origins env ! i))
           \<in> {- 3 ..< 3}"
    and "snd (snd (sample_desired_pos rnd env env_ids ! i)) \<in> {0.5 ..< 3}"
proof -
  let ?rows = "[0..<length env_ids]"
  let ?vals1 = "map (\<lambda>k. (uniform (- 3.0) 3.0 (fst (draw_xy rnd k)),
                            uniform (- 3.0) 3.0 (snd (draw_xy rnd k)))) ?rows"
  let ?pos1 = "index_put set_xy (desired_pos_w env) env_ids ?vals1"
  let ?vals2 = "map2 add_xy (map get_xy (gather ?pos1 env_ids))
                  (map get_xy (gather (env_origins env) env_ids))"
  let ?pos2 = "index_put set_xy ?pos1 env_ids ?vals2"
  let ?vals3 = "map (\<lambda>k. uniform 0.5 3.0 (draw_z rnd k)) ?rows"
  let ?pos3 = "index_put set_z ?pos2 env_ids ?vals3"
  let ?box = "\<lambda>v :: real \<times> real. - 3 \<le> fst v \<and> fst v < 3 \<and> - 3 \<le> snd v \<and> snd v < 3"
  have result: "sample_desired_pos rnd env env_ids = ?pos3"
    by (simp add: sample_desired_pos_def Let_def)
  have unit: "0 \<le> fst (draw_xy rnd k)" "fst (draw_xy rnd k) < 1"
    "0 \<le> snd (draw_xy rnd k)" "snd (draw_xy rnd k) < 1"
    "0 \<le> draw_z rnd k" "draw_z rnd k < 1" for k
    using draws by (simp_all add: unit_draws_def)
  have box1: "?box (get_xy (?pos1 ! i))"
  proof (rule index_put_in [where P = "\<lambda>row. ?box (get_xy row)"])
    show "i < length (desired_pos_w env)" "i \<in> set env_ids" by fact+
    show "length ?vals1 = length env_ids" by simp
    show "?box (get_xy (set_xy row (?vals1 ! k)))" if "k < length env_ids" for k row
      using that unit [of k] uniform_bounds [of _ "- 3" 3] by simp
  qed
  have xy2: "get_xy (?pos2 ! i) = add_xy (get_xy (?pos1 ! i)) (get_xy (env_origins env ! i))"
  proof (rule index_put_in
      [where P = "\<lambda>row. get_xy row = add_xy (get_xy (?pos1 ! i)) (get_xy (env_origins env ! i))"])
    show "i < length ?pos1" using i(1) by simp
    show "i \<in> set env_ids" by fact
    show "length ?vals2 = length env_ids" by (simp add: gather_def)
    show "get_xy (set_xy row (?vals2 ! k)) =
            add_xy (get_xy (?pos1 ! i)) (get_xy (env_origins env ! i))"
      if "k < length env_ids" "env_ids ! k = i" for k row
      using that by (simp add: gather_def)
  qed
  have "get_xy (?pos3 ! i) = get_xy (?pos2 ! i)"
    using i(1) by (intro index_put_preserve) simp_all
  with xy2 have xy3: "get_xy (?pos3 ! i) =
      add_xy (get_xy (?pos1 ! i)) (get_xy (env_origins env ! i))" by simp
  have z3: "snd (snd (?pos3 ! i)) \<in> {0.5 ..< 3}"
  proof (rule index_put_in [where P = "\<lambda>row. snd (snd row) \<in> {0.5 ..< 3}"])
    show "i < length ?pos2" using i(1) by simp
    show "i \<in> set env_ids" by fact
    show "length ?vals3 = length env_ids" by simp
    show "snd (snd (set_z row (?vals3 ! k))) \<in> {0.5 ..< 3}" if "k < length env_ids" for k row
      using that unit [of k] uniform_bounds [of "draw_z rnd k" "0.5" 3] by simp
  qed
  from xy3 have fx: "fst (?pos3 ! i) = fst (?pos1 ! i) + fst (env_origins env ! i)"
    and fy: "fst (snd (?pos3 ! i)) = fst (snd (?pos1 ! i)) + fst (snd (env_origins env ! i))"
    by (simp_all add: get_xy_proj add_xy_def)
  from box1 have bx: "- 3 \<le> fst (?pos1 ! i)" "fst (?pos1 ! i) < 3"
    and by': "- 3 \<le> fst (snd (?pos1 ! i))" "fst (snd (?pos1 ! i)) < 3"
    by (simp_all add: get_xy_proj)
  show "fst (sample_desired_pos rnd env env_ids ! i) - fst (env_origins env ! i) \<in> {- 3 ..< 3}"
    unfolding result fx using bx by simp
  show "fst (snd (sample_desired_pos rnd env env_ids ! i)) - fst (snd (env_origins env ! i))
           \<in> {- 3 ..< 3}"
    unfolding result fy using by' by simp
  from z3 show "snd (snd (sample_desired_pos rnd env env_ids ! i)) \<in> {0.5 ..< 3}"
    unfolding result .
qed


lemma sample_desired_yaw_selected:
  assumes draws: "unit_draws rnd" and i: "i < length (desired_yaw_w env)" "i \<in> set env_ids"
  shows "0 \<le> sample_desired_yaw rnd env env_ids ! i"
    and "sample_desired_yaw rnd env env_ids ! i < 6.28"
proof -
  let ?vals = "map (\<lambda>k. uniform 0 6.28 (draw_yaw rnd k)) [0..<length env_ids]"
  have unit: "0 \<le> draw_yaw rnd k" "draw_yaw rnd k < 1" for k
    using draws by (simp_all add: unit_draws_def)
  have "0 \<le> index_put (\<lambda>_ v. v) (desired_yaw_w env) env_ids ?vals ! i \<and>
        index_put (\<lambda>_ v. v) (desired_yaw_w env) env_ids ?vals ! i < 6.28"
  proof (rule index_put_in [where P = "\<lambda>y. 0 \<le> y \<and> y < 6.28"])
    show "i < length (desired_yaw_w env)" "i \<in> set env_ids" by fact+
    show "length ?vals = length env_ids" by simp
    show "0 \<le> ?vals ! k \<and> ?vals ! k < 6.28" if "k < length env_ids" for k
      using that unit [of k] uniform_bounds [of "draw_yaw rnd k" 0 "6.28"] by simp
  qed
  then show "0 \<le> sample_desired_yaw rnd env env_ids ! i"
    and "sample_desired_yaw rnd env env_ids ! i < 6.28"
    by (simp_all add: sample_desired_yaw_def)
qed

lemma length_sample_desired_yaw [simp]:
  "length (sample_desired_yaw rnd env env_ids) = length (desired_yaw_w env)"
  by (simp add: sample_desired_yaw_def)

lemma set_q0_proj [simp]:
  "fst (set_q0 row v) = v" "snd (set_q0 row v) = snd row"
  by (cases row; simp add: set_q0_def)+

lemma set_q3_proj [simp]:
  "fst (set_q3 row v) = fst row" "fst (snd (set_q3 row v)) = fst (snd row)"
  "fst (snd (snd (set_q3 row v))) = fst (snd (snd row))" "snd (snd (snd (set_q3 row v))) = v"
  by (cases row; simp add: set_q3_def)+

lemma write_desired_yaw_quat_selected:
  assumes i: "i < length (desired_yaw_quat env)" "i \<in> set env_ids"
  shows "fst (write_desired_yaw_quat env yaw env_ids ! i) = cos (yaw ! i / 2)"
    and "snd (snd (snd (write_desired_yaw_quat env yaw env_ids ! i))) = sin (yaw ! i / 2)"
    and "fst (snd (write_desired_yaw_quat env yaw env_ids ! i)) = fst (snd (desired_yaw_quat env ! i))"
    and "fst (snd (snd (write_desired_yaw_quat env yaw env_ids ! i))) =
           fst (snd (snd (desired_yaw_quat env ! i)))"
proof -
  let ?c = "map (\<lambda>y. cos (y / 2)) (gather yaw env_ids)"
  let ?s = "map (\<lambda>y. sin (y / 2)) (gather yaw env_ids)"
  let ?quat1 = "index_put set_q0 (desired_yaw_quat env) env_ids ?c"
  let ?quat2 = "index_put set_q3 ?quat1 env_ids ?s"
  have result: "write_desired_yaw_quat env yaw env_ids = ?quat2"
    by (simp add: write_desired_yaw_quat_def Let_def)
  have i1: "i < length ?quat1" using i(1) by simp
  have w1: "fst (?quat1 ! i) = cos (yaw ! i / 2)"
  proof (rule index_put_in [where P = "\<lambda>row. fst row = cos (yaw ! i / 2)"])
    show "i < length (desired_yaw_quat env)" "i \<in> set env_ids" by fact+
    show "length ?c = length env_ids" by (simp add: gather_def)
    show "fst (set_q0 row (?c ! k)) = cos (yaw ! i / 2)"
      if "k < length env_ids" "env_ids ! k = i" for k row
      using that by (simp add: gather_def)
  qed
  have "fst (?quat2 ! i) = fst (?quat1 ! i)"
    using i1 by (intro index_put_preserve) simp_all
  with w1 show "fst (write_desired_yaw_quat env yaw env_ids ! i) = cos (yaw ! i / 2)"
    unfolding result by simp
  show "snd (snd (snd (write_desired_yaw_quat env yaw env_ids ! i))) = sin (yaw ! i / 2)"
    unfolding result
  proof (rule index_put_in [where P = "\<lambda>row. snd (snd (snd row)) = sin (yaw ! i / 2)"])
    show "i < length ?quat1" by (rule i1)
    show "i \<in> set env_ids" by fact
    show "length ?s = length env_ids" by (simp add: gather_def)
    show "snd (snd (snd (set_q3 row (?s ! k)))) = sin (yaw ! i / 2)"
      if "k < length env_ids" "env_ids ! k = i" for k row
      using that by (simp add: gather_def)
  qed
  have "fst (snd (?quat2 ! i)) = fst (snd (?quat1 ! i))"
    using i1 by (intro index_put_preserve) simp_all
  also have "\<dots> = fst (snd (desired_yaw_quat env ! i))"
    using i(1) by (intro index_put_preserve [where f = "\<lambda>row. fst (snd row)"]) simp_all
  finally show "fst (snd (write_desired_yaw_quat env yaw env_ids ! i)) =
      fst (snd (desired_yaw_quat env ! i))"
    unfolding result .
  have "fst (snd (snd (?quat2 ! i))) = fst (snd (snd (?quat1 ! i)))"
    using i1 by (intro index_put_preserve) simp_all
  also have "\<dots> = fst (snd (snd (desired_yaw_quat env ! i)))"
    using i(1) by (intro index_put_preserve [where f = "\<lambda>row. fst (snd (snd row))"]) simp_all
  finally show "fst (snd (snd (write_desired_yaw_quat env yaw env_ids ! i))) =
      fst (snd (snd (desired_yaw_quat env ! i)))"
    unfolding result .
qed

lemma sample_desired_pos_other:
  "i \<notin> set env_ids \<Longrightarrow> sample_desired_pos rnd env env_ids ! i = desired_pos_w env ! i"
  by (simp add: sample_desired_pos_def Let_def index_put_notin)

lemma sample_desired_yaw_other:
  "i \<notin> set env_ids \<Longrightarrow> sample_desired_yaw rnd env env_ids ! i = desired_yaw_w env ! i"
  by (simp add: sample_desired_yaw_def index_put_notin)

lemma write_desired_yaw_quat_other:
  "i \<notin> set env_ids \<Longrightarrow> write_desired_yaw_quat env yaw env_ids ! i = desired_yaw_quat env ! i"
  by (simp add: write_desired_yaw_quat_def Let_def index_put_notin)

lemma reset_idx_result:
  assumes "list_all (\<lambda>j. j < num_envs env) (resolve_env_ids env env_ids)"
  shows "\<exists>env'. reset_idx rnd env_ids env = Inr env' \<and>
      desired_pos_w env' = sample_desired_pos rnd env (resolve_env_ids env env_ids) \<and>
      desired_yaw_w env' = sample_desired_yaw rnd env (resolve_env_ids env env_ids) \<and>
      desired_yaw_quat env' =
        write_desired_yaw_quat env (sample_desired_yaw rnd env (resolve_env_ids env env_ids))
          (resolve_env_ids env env_ids) \<and>
      actions env' = index_fill (actions env) (resolve_env_ids env env_ids) (0, 0, 0, 0) \<and>
      sum_lin_vel (episode_sums env') =
        index_fill (sum_lin_vel (episode_sums env)) (resolve_env_ids env env_ids) 0 \<and>
      sum_ang_vel (episode_sums env') =
        index_fill (sum_ang_vel (episode_sums env)) (resolve_env_ids env env_ids) 0 \<and>
      sum_distance_to_goal_pose (episode_sums env') =
        index_fill (sum_distance_to_goal_pose (episode_sums env)) (resolve_env_ids env env_ids) 0 \<and>
      sum_radial_to_goal_yaw (episode_sums env') =
        index_fill (sum_radial_to_goal_yaw (episode_sums env)) (resolve_env_ids env env_ids) 0 \<and>
      episode_length_buf env' =
        (if length (resolve_env_ids env env_ids) = num_envs env
         then map (draw_length rnd) [0..<length (episode_length_buf env)]
         else index_fill (episode_length_buf env) (resolve_env_ids env env_ids) 0)"
  using assms by (simp add: reset_idx_def Let_def)


lemma sample_desired_yaw_drawn:
  assumes i: "i < length (desired_yaw_w env)" "i \<in> set env_ids"
  shows "\<exists>k<length env_ids. env_ids ! k = i \<and>
           sample_desired_yaw rnd env env_ids ! i = uniform 0 6.28 (draw_yaw rnd k)"
  unfolding sample_desired_yaw_def
proof (rule index_put_in
    [where P = "\<lambda>y. \<exists>k<length env_ids. env_ids ! k = i \<and> y = uniform 0 6.28 (draw_yaw rnd k)"])
  let ?vals = "map (\<lambda>k. uniform 0 6.28 (draw_yaw rnd k)) [0..<length env_ids]"
  show "i < length (desired_yaw_w env)" "i \<in> set env_ids" by fact+
  show "length ?vals = length env_ids" by simp
  show "\<exists>k'<length env_ids. env_ids ! k' = i \<and> ?vals ! k = uniform 0 6.28 (draw_yaw rnd k')"
    if "k < length env_ids" "env_ids ! k = i" for k
    using that by (intro exI [of _ k]) simp
qed

lemma sample_desired_pos_drawn:
  assumes i: "i < length (desired_pos_w env)" "i \<in> set env_ids"
  shows "\<exists>k<length env_ids. env_ids ! k = i \<and>
           fst (sample_desired_pos rnd env env_ids ! i) =
             uniform (- 3.0) 3.0 (fst (draw_xy rnd k)) + fst (env_origins env ! i) \<and>
           fst (snd (sample_desired_pos rnd env env_ids ! i)) =
             uniform (- 3.0) 3.0 (snd (draw_xy rnd k)) + fst (snd (env_origins env ! i))"
    and "\<exists>k<length env_ids. env_ids ! k = i \<and>
           snd (snd (sample_desired_pos rnd env env_ids ! i)) = uniform 0.5 3.0 (draw_z rnd k)"
proof -
  let ?rows = "[0..<length env_ids]"
  let ?vals1 = "map (\<lambda>k. (uniform (- 3.0) 3.0 (fst (draw_xy rnd k)),
                            uniform (- 3.0) 3.0 (snd (draw_xy rnd k)))) ?rows"
  let ?pos1 = "index_put set_xy (desired_pos_w env) env_ids ?vals1"
  let ?vals2 = "map2 add_xy (map get_xy (gather ?pos1 env_ids))
                  (map get_xy (gather (env_origins env) env_ids))"
  let ?pos2 = "index_put set_xy ?pos1 env_ids ?vals2"
  let ?vals3 = "map (\<lambda>k. uniform 0.5 3.0 (draw_z rnd k)) ?rows"
  let ?pos3 = "index_put set_z ?pos2 env_ids ?vals3"
  have result: "sample_desired_pos rnd env env_ids = ?pos3"
    by (simp add: sample_desired_pos_def Let_def)
  have "\<exists>k<length env_ids. env_ids ! k = i \<and>
          get_xy (?pos1 ! i) = (uniform (- 3.0) 3.0 (fst (draw_xy rnd k)),
                               uniform (- 3.0) 3.0 (snd (draw_xy rnd k)))"
  proof (rule index_put_in
      [where P = "\<lambda>row. \<exists>k<length env_ids. env_ids ! k = i \<and>
          get_xy row = (uniform (- 3.0) 3.0 (fst (draw_xy rnd k)),
                        uniform (- 3.0) 3.0 (snd (draw_xy rnd k)))"])
    show "i < length (desired_pos_w env)" "i \<in> set env_ids" by fact+
    show "length ?vals1 = length env_ids" by simp
    show "\<exists>k'<length env_ids. env_ids ! k' = i \<and>
            get_xy (set_xy row (?vals1 ! k)) =
              (uniform (- 3.0) 3.0 (fst (draw_xy rnd k')), uniform (- 3.0) 3.0 (snd (draw_xy rnd k')))"
      if "k < length env_ids" "env_ids ! k = i" for k row
      using that by (intro exI [of _ k]) simp
  qed
  then obtain k where k: "k < length env_ids" "env_ids ! k = i"
    and xy1: "get_xy (?pos1 ! i) = (uniform (- 3.0) 3.0 (fst (draw_xy rnd k)),
                                    uniform (- 3.0) 3.0 (snd (draw_xy rnd k)))"
    by blast
  have xy2: "get_xy (?pos2 ! i) = add_xy (get_xy (?pos1 ! i)) (get_xy (env_origins env ! i))"
  proof (rule index_put_in
      [where P = "\<lambda>row. get_xy row = add_xy (get_xy (?pos1 ! i)) (get_xy (env_origins env ! i))"])
    show "i < length ?pos1" using i(1) by simp
    show "i \<in> set env_ids" by fact
    show "length ?vals2 = length env_ids" by (simp add: gather_def)
    show "get_xy (set_xy row (?vals2 ! k)) =
            add_xy (get_xy (?pos1 ! i)) (get_xy (env_origins env ! i))"
      if "k < length env_ids" "env_ids ! k = i" for k row
      using that by (simp add: gather_def)
  qed
  have "get_xy (?pos3 ! i) = get_xy (?pos2 ! i)"
    using i(1) by (intro index_put_preserve) simp_all
  with xy2 xy1 have "get_xy (?pos3 ! i) =
      add_xy (uniform (- 3.0) 3.0 (fst (draw_xy rnd k)), uniform (- 3.0) 3.0 (snd (draw_xy rnd k)))
        (get_xy (env_origins env ! i))" by simp
  then have "fst (?pos3 ! i) = uniform (- 3.0) 3.0 (fst (draw_xy rnd k)) + fst (env_origins env ! i)"
    and "fst (snd (?pos3 ! i)) =
      uniform (- 3.0) 3.0 (snd (draw_xy rnd k)) + fst (snd (env_origins env ! i))"
    by (simp_all add: get_xy_proj add_xy_def)
  with k show "\<exists>k<length env_ids. env_ids ! k = i \<and>
           fst (sample_desired_pos rnd env env_ids ! i) =
             uniform (- 3.0) 3.0 (fst (draw_xy rnd k)) + fst (env_origins env ! i) \<and>
           fst (snd (sample_desired_pos rnd env env_ids ! i)) =
             uniform (- 3.0) 3.0 (snd (draw_xy rnd k)) + fst (snd (env_origins env ! i))"
    unfolding result by blast
  show "\<exists>k<length env_ids. env_ids ! k = i \<and>
           snd (snd (sample_desired_pos rnd env env_ids ! i)) = uniform 0.5 3.0 (draw_z rnd k)"
    unfolding result
  proof (rule index_put_in
      [where P = "\<lambda>row. \<exists>k<length env_ids. env_ids ! k = i \<and>
          snd (snd row) = uniform 0.5 3.0 (draw_z rnd k)"])
    show "i < length ?pos2" using i(1) by simp
    show "i \<in> set env_ids" by fact
    show "length ?vals3 = length env_ids" by simp
    show "\<exists>k'<length env_ids. env_ids ! k' = i \<and>
            snd (snd (set_z row (?vals3 ! k))) = uniform 0.5 3.0 (draw_z rnd k')"
      if "k < length env_ids" "env_ids ! k = i" for k row
      using that by (intro exI [of _ k]) simp
  qed
qed


text \<open>
  Claim C3, amended. \<open>_reset_idx\<close> on a selection of valid indices returns normally, and
  for every selected environment \<open>i\<close>, with \<open>k\<close> a row of the index tensor that holds
  \<open>i\<close>: the desired x and y are the draws of row \<open>k\<close> scaled to \<open>[-3, 3)\<close> by
  \<open>uniform_(-3.0, 3.0)\<close>, plus the terrain origin of \<open>i\<close>; the desired z is the draw scaled
  to \<open>[0.5, 3.0)\<close>; the desired yaw is the draw scaled to \<open>[0, 6.28)\<close>, the bounds the
  source passes to \<open>uniform_\<close>, so it lies below 6.28 and hence inside \<open>[0, 2 * pi)\<close>;
  the desired-yaw quaternion has scalar part \<open>cos (yaw / 2)\<close> and z part \<open>sin (yaw / 2)\<close>
  of the new yaw, with x and y parts as before (zero since construction); the action row
  is zero and each of the four running sums is zero. The selection is the index tensor,
  or every environment for \<open>None\<close> and for a tensor of \<open>num_envs\<close> entries.
\<close>

theorem reset_resamples_selected:
  assumes "wf_env env" and "unit_draws rnd"
    and "list_all (\<lambda>j. j < num_envs env) (resolve_env_ids env env_ids)"
    and "i \<in> set (resolve_env_ids env env_ids)"
  shows "\<exists>env'. reset_idx rnd env_ids env = Inr env' \<and>
      (\<exists>k<length (resolve_env_ids env env_ids). resolve_env_ids env env_ids ! k = i \<and>
         fst (desired_pos_w env' ! i) =
           uniform (- 3.0) 3.0 (fst (draw_xy rnd k)) + fst (env_origins env ! i) \<and>
         fst (snd (desired_pos_w env' ! i)) =
           uniform (- 3.0) 3.0 (snd (draw_xy rnd k)) + fst (snd (env_origins env ! i))) \<and>
      (\<exists>k<length (resolve_env_ids env env_ids). resolve_env_ids env env_ids ! k = i \<and>
         snd (snd (desired_pos_w env' ! i)) = uniform 0.5 3.0 (draw_z rnd k)) \<and>
      (\<exists>k<length (resolve_env_ids env env_ids). resolve_env_ids env env_ids ! k = i \<and>
         desired_yaw_w env' ! i = uniform 0 6.28 (draw_yaw rnd k)) \<and>
      fst (desired_pos_w env' ! i) - fst (env_origins env ! i) \<in> {- 3 .. 3} \<and>
      fst (snd (desired_pos_w env' ! i)) - fst (snd (env_origins env ! i)) \<in> {- 3 .. 3} \<and>
      snd (snd (desired_pos_w env' ! i)) \<in> {0.5 .. 3.0} \<and>
      0 \<le> desired_yaw_w env' ! i \<and> desired_yaw_w env' ! i < 6.28 \<and>
      desired_yaw_w env' ! i < 2 * pi \<and>
      fst (desired_yaw_quat env' ! i) = cos (desired_yaw_w env' ! i / 2) \<and>
      fst (snd (desired_yaw_quat env' ! i)) = fst (snd (desired_yaw_quat env ! i)) \<and>
      fst (snd (snd (desired_yaw_quat env' ! i))) = fst (snd (snd (desired_yaw_quat env ! i))) \<and>
      snd (snd (snd (desired_yaw_quat env' ! i))) = sin (desired_yaw_w env' ! i / 2) \<and>
      actions env' ! i = (0, 0, 0, 0) \<and>
      sum_lin_vel (episode_sums env') ! i = 0 \<and>
      sum_ang_vel (episode_sums env') ! i = 0 \<and>
      sum_distance_to_goal_pose (episode_sums env') ! i = 0 \<and>
      sum_radial_to_goal_yaw (episode_sums env') ! i = 0"
proof -
  let ?ids = "resolve_env_ids env env_ids"
  have sel: "i \<in> set ?ids" by fact
  with assms(3) have i: "i < num_envs env" by (simp add: list_all_iff)
  with assms(1) have len: "i < length (desired_pos_w env)" "i < length (desired_yaw_w env)"
    "i < length (desired_yaw_quat env)" "i < length (actions env)"
    "i < length (sum_lin_vel (episode_sums env))" "i < length (sum_ang_vel (episode_sums env))"
    "i < length (sum_distance_to_goal_pose (episode_sums env))"
    "i < length (sum_radial_to_goal_yaw (episode_sums env))"
    by (simp_all add: wf_env_def)
  obtain env' where run: "reset_idx rnd env_ids env = Inr env'"
    and pos: "desired_pos_w env' = sample_desired_pos rnd env ?ids"
    and yaw: "desired_yaw_w env' = sample_desired_yaw rnd env ?ids"
    and quat: "desired_yaw_quat env' =
        write_desired_yaw_quat env (sample_desired_yaw rnd env ?ids) ?ids"
    and act: "actions env' = index_fill (actions env) ?ids (0, 0, 0, 0)"
    and sums: "sum_lin_vel (episode_sums env') = index_fill (sum_lin_vel (episode_sums env)) ?ids 0"
      "sum_ang_vel (episode_sums env') = index_fill (sum_ang_vel (episode_sums env)) ?ids 0"
      "sum_distance_to_goal_pose (episode_sums env') =
         index_fill (sum_distance_to_goal_pose (episode_sums env)) ?ids 0"
      "sum_radial_to_goal_yaw (episode_sums env') =
         index_fill (sum_radial_to_goal_yaw (episode_sums env)) ?ids 0"
    using reset_idx_result [OF assms(3), of rnd] by blast
  note d = sample_desired_pos_drawn [OF len(1) sel, of rnd]
  have dxy: "\<exists>k<length ?ids. ?ids ! k = i \<and>
         fst (desired_pos_w env' ! i) =
           uniform (- 3.0) 3.0 (fst (draw_xy rnd k)) + fst (env_origins env ! i) \<and>
         fst (snd (desired_pos_w env' ! i)) =
           uniform (- 3.0) 3.0 (snd (draw_xy rnd k)) + fst (snd (env_origins env ! i))"
    using d(1) unfolding pos .
  have dz: "\<exists>k<length ?ids. ?ids ! k = i \<and>
         snd (snd (desired_pos_w env' ! i)) = uniform 0.5 3.0 (draw_z rnd k)"
    using d(2) unfolding pos .
  have dyaw: "\<exists>k<length ?ids. ?ids ! k = i \<and>
         desired_yaw_w env' ! i = uniform 0 6.28 (draw_yaw rnd k)"
    using sample_desired_yaw_drawn [OF len(2) sel, of rnd] unfolding yaw .
  note p = sample_desired_pos_selected [OF assms(2) len(1) sel]
  have x: "fst (desired_pos_w env' ! i) - fst (env_origins env ! i) \<in> {- 3 .. 3}"
    using p(1) by (simp add: pos)
  have y: "fst (snd (desired_pos_w env' ! i)) - fst (snd (env_origins env ! i)) \<in> {- 3 .. 3}"
    using p(2) by (simp add: pos)
  have z: "snd (snd (desired_pos_w env' ! i)) \<in> {0.5 .. 3.0}"
    using p(3) by (simp add: pos)
  note yb = sample_desired_yaw_selected [OF assms(2) len(2) sel]
  have y0: "0 \<le> desired_yaw_w env' ! i" using yb(1) by (simp add: yaw)
  have y628: "desired_yaw_w env' ! i < 6.28" using yb(2) by (simp add: yaw)
  also have "(6.28 :: real) < 2 * pi" using pi_gt_314 by simp
  finally have y1: "desired_yaw_w env' ! i < 2 * pi" .
  note q = write_desired_yaw_quat_selected [OF len(3) sel, of "sample_desired_yaw rnd env ?ids"]
  have q0: "fst (desired_yaw_quat env' ! i) = cos (desired_yaw_w env' ! i / 2)"
    and q1: "fst (snd (desired_yaw_quat env' ! i)) = fst (snd (desired_yaw_quat env ! i))"
    and q2: "fst (snd (snd (desired_yaw_quat env' ! i))) = fst (snd (snd (desired_yaw_quat env ! i)))"
    and q3: "snd (snd (snd (desired_yaw_quat env' ! i))) = sin (desired_yaw_w env' ! i / 2)"
    using q by (simp_all add: quat yaw)
  have a: "actions env' ! i = (0, 0, 0, 0)"
    using len(4) sel by (simp add: act index_fill_in)
  have s: "sum_lin_vel (episode_sums env') ! i = 0" "sum_ang_vel (episode_sums env') ! i = 0"
    "sum_distance_to_goal_pose (episode_sums env') ! i = 0"
    "sum_radial_to_goal_yaw (episode_sums env') ! i = 0"
    using len(5-8) sel by (simp_all add: sums index_fill_in)
  show ?thesis
    apply (rule exI [of _ env'])
    apply (intro conjI)
    apply (rule run dxy dz dyaw x y z y0 y628 y1 q0 q1 q2 q3 a s)+
    done
qed

lemma example_draws_unit: "unit_draws example_draws"
  by (simp add: unit_draws_def example_draws_def)

lemma example_resolve: "resolve_env_ids example_env (Some [1, 2]) = [1, 2]"
  by (simp add: resolve_env_ids_def example_env_def)

text \<open>
  Resetting environments 1 and 2 of the example batch with every draw one half:
  environment 1, with terrain origin \<open>(5, 0)\<close>, receives the goal \<open>(5, 0, 1.75)\<close> and the
  yaw 3.14, the middle of \<open>[0, 6.28)\<close>.
\<close>

theorem reset_resamples_selected_witness:
  "wf_env example_env \<and> unit_draws example_draws \<and>
   list_all (\<lambda>j. j < num_envs example_env) (resolve_env_ids example_env (Some [1, 2])) \<and>
   1 \<in> set (resolve_env_ids example_env (Some [1, 2])) \<and>
   (\<exists>env'. reset_idx example_draws (Some [1, 2]) example_env = Inr env' \<and>
      fst (desired_pos_w env' ! 1) = 5 \<and>
      fst (snd (desired_pos_w env' ! 1)) = 0 \<and>
      snd (snd (desired_pos_w env' ! 1)) = 1.75 \<and>
      desired_yaw_w env' ! 1 = 3.14 \<and> desired_yaw_w env' ! 1 < 2 * pi \<and>
      actions env' ! 1 = (0, 0, 0, 0) \<and>
      sum_lin_vel (episode_sums env') ! 1 = 0)"
proof -
  have valid: "list_all (\<lambda>j. j < num_envs example_env) (resolve_env_ids example_env (Some [1, 2]))"
    unfolding example_resolve by (simp add: example_env_def)
  have sel: "1 \<in> set (resolve_env_ids example_env (Some [1, 2]))"
    unfolding example_resolve by simp
  have origin: "fst (env_origins example_env ! 1) = 5" "fst (snd (env_origins example_env ! 1)) = 0"
    by (simp_all add: example_env_def)
  have draws: "uniform (- 3.0) 3.0 (fst (draw_xy example_draws k)) = 0"
    "uniform (- 3.0) 3.0 (snd (draw_xy example_draws k)) = 0"
    "uniform 0.5 3.0 (draw_z example_draws k) = 1.75"
    "uniform 0 6.28 (draw_yaw example_draws k) = 3.14" for k
    by (simp_all add: uniform_def example_draws_def)
  show ?thesis
    using reset_resamples_selected [OF example_env_wf example_draws_unit valid sel]
      example_env_wf example_draws_unit valid sel
    unfolding origin draws by auto
qed

text \<open>
  Claim C3 as stated fails for the yaw: 6.28 lies in \<open>[0, 2 * pi)\<close>, but no generator makes
  the reset of environment 1 produce a yaw of 6.28 or more, so the yaws from 6.28 up to
  \<open>2 * pi\<close> are never sampled.
\<close>

theorem reset_yaw_below_two_pi_counterexample:
  "(6.28 :: real) \<in> {0 ..< 2 * pi} \<and>
   \<not> (\<exists>rnd env'. unit_draws rnd \<and>
          reset_idx rnd (Some [1, 2]) example_env = Inr env' \<and>
          6.28 \<le> desired_yaw_w env' ! 1)"
proof
  show "(6.28 :: real) \<in> {0 ..< 2 * pi}" using pi_gt_314 by simp
  show "\<not> (\<exists>rnd env'. unit_draws rnd \<and>
          reset_idx rnd (Some [1, 2]) example_env = Inr env' \<and>
          6.28 \<le> desired_yaw_w env' ! 1)"
  proof
    assume "\<exists>rnd env'. unit_draws rnd \<and>
          reset_idx rnd (Some [1, 2]) example_env = Inr env' \<and>
          6.28 \<le> desired_yaw_w env' ! 1"
    then obtain rnd env' where unit: "unit_draws rnd"
      and run: "reset_idx rnd (Some [1, 2]) example_env = Inr env'"
      and big: "6.28 \<le> desired_yaw_w env' ! 1"
      by blast
    have valid: "list_all (\<lambda>j. j < num_envs example_env) (resolve_env_ids example_env (Some [1, 2]))"
      unfolding example_resolve by (simp add: example_env_def)
    from reset_idx_result [OF valid, of rnd] run
    have yaw: "desired_yaw_w env' = sample_desired_yaw rnd example_env [1, 2]"
      unfolding example_resolve by auto
    have "1 < length (desired_yaw_w example_env)" by (simp add: example_env_def)
    moreover have "1 \<in> set [1, 2 :: nat]" by simp
    ultimately have "sample_desired_yaw rnd example_env [1, 2] ! 1 < 6.28"
      using unit by (rule sample_desired_yaw_selected(2) [rotated])
    with big show False by (simp add: yaw)
  qed
qed

text \<open>
  Claim C4. When the index tensor lists a proper subset of the environments, each once,
  \<open>_reset_idx\<close> returns normally and every environment outside the subset keeps its goal
  position, desired yaw and desired-yaw quaternion, its four running sums, its step
  counter and its action row.
\<close>

theorem reset_leaves_other_environments:
  assumes "distinct ids" and "set ids \<subset> {0..<num_envs env}"
    and "i < num_envs env" and "i \<notin> set ids"
  shows "\<exists>env'. reset_idx rnd (Some ids) env = Inr env' \<and>
      desired_pos_w env' ! i = desired_pos_w env ! i \<and>
      desired_yaw_w env' ! i = desired_yaw_w env ! i \<and>
      desired_yaw_quat env' ! i = desired_yaw_quat env ! i \<and>
      sum_lin_vel (episode_sums env') ! i = sum_lin_vel (episode_sums env) ! i \<and>
      sum_ang_vel (episode_sums env') ! i = sum_ang_vel (episode_sums env) ! i \<and>
      sum_distance_to_goal_pose (episode_sums env') ! i =
        sum_distance_to_goal_pose (episode_sums env) ! i \<and>
      sum_radial_to_goal_yaw (episode_sums env') ! i = sum_radial_to_goal_yaw (episode_sums env) ! i \<and>
      episode_length_buf env' ! i = episode_length_buf env ! i \<and>
      actions env' ! i = actions env ! i"
proof -
  have "card (set ids) < card {0..<num_envs env}"
    using assms(2) by (intro psubset_card_mono) simp_all
  then have short: "length ids < num_envs env"
    using assms(1) by (simp add: distinct_card)
  then have ids: "resolve_env_ids env (Some ids) = ids"
    by (simp add: resolve_env_ids_def)
  have valid: "list_all (\<lambda>j. j < num_envs env) (resolve_env_ids env (Some ids))"
    using assms(2) unfolding ids by (auto simp: list_all_iff)
  obtain env' where run: "reset_idx rnd (Some ids) env = Inr env'"
    and pos: "desired_pos_w env' = sample_desired_pos rnd env ids"
    and yaw: "desired_yaw_w env' = sample_desired_yaw rnd env ids"
    and quat: "desired_yaw_quat env' = write_desired_yaw_quat env (sample_desired_yaw rnd env ids) ids"
    and act: "actions env' = index_fill (actions env) ids (0, 0, 0, 0)"
    and sums: "sum_lin_vel (episode_sums env') = index_fill (sum_lin_vel (episode_sums env)) ids 0"
      "sum_ang_vel (episode_sums env') = index_fill (sum_ang_vel (episode_sums env)) ids 0"
      "sum_distance_to_goal_pose (episode_sums env') =
         index_fill (sum_distance_to_goal_pose (episode_sums env)) ids 0"
      "sum_radial_to_goal_yaw (episode_sums env') =
         index_fill (sum_radial_to_goal_yaw (episode_sums env)) ids 0"
    and buf: "episode_length_buf env' =
        (if length ids = num_envs env
         then map (draw_length rnd) [0..<length (episode_length_buf env)]
         else index_fill (episode_length_buf env) ids 0)"
    using reset_idx_result [OF valid, of rnd] unfolding ids by blast
  from short have buf': "episode_length_buf env' = index_fill (episode_length_buf env) ids 0"
    by (simp add: buf)
  note other = assms(4)
  have "desired_pos_w env' ! i = desired_pos_w env ! i"
    using other by (simp add: pos sample_desired_pos_other)
  moreover have "desired_yaw_w env' ! i = desired_yaw_w env ! i"
    using other by (simp add: yaw sample_desired_yaw_other)
  moreover have "desired_yaw_quat env' ! i = desired_yaw_quat env ! i"
    using other by (simp add: quat write_desired_yaw_quat_other)
  moreover have "sum_lin_vel (episode_sums env') ! i = sum_lin_vel (episode_sums env) ! i"
    "sum_ang_vel (episode_sums env') ! i = sum_ang_vel (episode_sums env) ! i"
    "sum_distance_to_goal_pose (episode_sums env') ! i =
        sum_distance_to_goal_pose (episode_sums env) ! i"
    "sum_radial_to_goal_yaw (episode_sums env') ! i = sum_radial_to_goal_yaw (episode_sums env) ! i"
    using other by (simp_all add: sums index_fill_notin)
  moreover have "episode_length_buf env' ! i = episode_length_buf env ! i"
    using other by (simp add: buf' index_fill_notin)
  moreover have "actions env' ! i = actions env ! i"
    using other by (simp add: act index_fill_notin)
  ultimately show ?thesis using run by blast
qed

text \<open>
  Resetting environments 1 and 2 of the example batch leaves environment 0 as it was.
\<close>

theorem reset_leaves_other_environments_witness:
  "distinct [1, 2 :: nat] \<and> set [1, 2] \<subset> {0..<num_envs example_env} \<and>
   0 < num_envs example_env \<and> 0 \<notin> set [1, 2 :: nat] \<and>
   (\<exists>env'. reset_idx example_draws (Some [1, 2]) example_env = Inr env' \<and>
      desired_pos_w env' ! 0 = (1, 1, 1) \<and>
      desired_yaw_w env' ! 0 = 0 \<and>
      desired_yaw_quat env' ! 0 = (1, 0, 0, 0) \<and>
      sum_lin_vel (episode_sums env') ! 0 = 1 \<and>
      episode_length_buf env' ! 0 = 499 \<and>
      actions env' ! 0 = (1, 0, 0, 0))"
proof -
  have d: "distinct [1, 2 :: nat]" by simp
  have sub: "set [1, 2] \<subset> {0..<num_envs example_env}"
    by (auto simp: example_env_def)
  have n: "0 < num_envs example_env" by (simp add: example_env_def)
  have other: "0 \<notin> set [1, 2 :: nat]" by simp
  have old: "desired_pos_w example_env ! 0 = (1, 1, 1)" "desired_yaw_w example_env ! 0 = 0"
    "desired_yaw_quat example_env ! 0 = (1, 0, 0, 0)"
    "sum_lin_vel (episode_sums example_env) ! 0 = 1"
    "episode_length_buf example_env ! 0 = 499" "actions example_env ! 0 = (1, 0, 0, 0)"
    by (simp_all add: example_env_def)
  show ?thesis
    using reset_leaves_other_environments [OF d sub n other, of example_draws] d sub n other
    unfolding old by blast
qed

end
